theory Spec2Isabelle
  imports
    Main
    "HOL-Library.Word"
    "HOL-Library.AList"
    "HOL-Library.Char_ord"
    "HOL-Library.List_Lexorder"
begin

section \<open>Python string operations used by ToothFairy\_preprocess.py\<close>

text \<open>
  File names are \<^typ>\<open>string\<close>s. With \<open>Char_ord\<close> and \<open>List_Lexorder\<close> the order on
  strings is the lexicographic order by character code, which is the order Python's
  \<open>sorted\<close> uses on \<open>str\<close>.
\<close>

definition endswith :: "string \<Rightarrow> string \<Rightarrow> bool" where
  "endswith s suf \<longleftrightarrow> length suf \<le> length s \<and> drop (length s - length suf) s = suf"

definition startswith :: "string \<Rightarrow> string \<Rightarrow> bool" where
  "startswith s pre \<longleftrightarrow> take (length pre) s = pre"

text \<open>\<open>s.replace(old, new)\<close>: every non-overlapping occurrence, scanning from the left.\<close>

fun replace :: "string \<Rightarrow> string \<Rightarrow> string \<Rightarrow> string" where
  "replace [] old new = []"
| "replace (c # cs) old new =
     (if old \<noteq> [] \<and> take (length old) (c # cs) = old
      then new @ replace (drop (length old) (c # cs)) old new
      else c # replace cs old new)"

text \<open>\<open>s.split(sep)\<close> for a one-character separator; the result is never empty.\<close>

fun split :: "string \<Rightarrow> char \<Rightarrow> string list" where
  "split [] sep = [[]]"
| "split (c # cs) sep =
     (if c = sep then [] # split cs sep
      else (case split cs sep of [] \<Rightarrow> [[c]] | w # ws \<Rightarrow> (c # w) # ws))"

text \<open>\<open>sep.join(parts)\<close>.\<close>

fun join :: "string \<Rightarrow> string list \<Rightarrow> string" where
  "join sep [] = []"
| "join sep [x] = x"
| "join sep (x # y # ys) = x @ sep @ join sep (y # ys)"

text \<open>\<open>os.path.join(a, b)\<close> for a relative second component.\<close>

definition path_join :: "string \<Rightarrow> string \<Rightarrow> string" where
  "path_join a b = (if a = [] \<or> last a = CHR ''/'' then a @ b else a @ ''/'' @ b)"

definition nii_gz :: "string \<Rightarrow> bool" where
  "nii_gz fname \<longleftrightarrow> endswith fname ''.nii.gz''"

definition strip_image_id :: "string \<Rightarrow> string" where
  "strip_image_id filename = join ''_'' (take 2 (split (replace filename ''.nii.gz'' '''') CHR ''_''))"


section \<open>Data: volumes, descriptors, files and the file system\<close>

datatype error =
    FileNotFoundError
  | ImageFileError
  | OverflowError
  | JSONDecodeError
  | TypeError
  | ShutilError

text \<open>
  A volume as the relabeler sees it: \<open>voxels\<close> is the array
  \<open>img.get_fdata().astype(np.uint16)\<close> (flattened), \<open>affine\<close> and \<open>header\<close> are the
  framing metadata of the image object. Their types are left open. A volume file is the
  image that loading it gives.
\<close>

record ('a, 'h) nifti =
  voxels :: "16 word list"
  affine :: 'a
  header :: 'h

datatype json = JInt int | JStr string | JObj "(string \<times> json) list"

datatype ('a, 'h) content = Nifti "('a, 'h) nifti" | Json json | Other string

text \<open>
  A directory is the list of its entries in the order \<open>os.listdir\<close> enumerates them; a
  Python \<open>dict\<close> is likewise an association list in insertion order, written with
  \<^const>\<open>AList.update\<close> (an existing key keeps its place, a new key goes to the end).
  The file system maps a directory path to its entries. A directory that does not exist
  reads as the empty one: every output directory is created by \<open>os.makedirs(exist_ok=True)\<close>
  before it is listed. Directories hold regular files only.
\<close>

type_synonym ('a, 'h) directory = "(string \<times> ('a, 'h) content) list"
type_synonym ('a, 'h) filesystem = "string \<Rightarrow> ('a, 'h) directory"

definition listdir :: "('a, 'h) filesystem \<Rightarrow> string \<Rightarrow> string list" where
  "listdir fs d = map fst (fs d)"

definition read_file :: "('a, 'h) filesystem \<Rightarrow> string \<Rightarrow> string \<Rightarrow> ('a, 'h) content option" where
  "read_file fs d fname = map_of (fs d) fname"

definition write_file ::
  "('a, 'h) filesystem \<Rightarrow> string \<Rightarrow> string \<Rightarrow> ('a, 'h) content \<Rightarrow> ('a, 'h) filesystem" where
  "write_file fs d fname c = fs(d := AList.update fname c (fs d))"

definition remove_file :: "('a, 'h) filesystem \<Rightarrow> string \<Rightarrow> string \<Rightarrow> ('a, 'h) filesystem" where
  "remove_file fs d fname = fs(d := AList.delete fname (fs d))"

text \<open>\<open>shutil.move(src, dst)\<close> for file paths: a missing source raises, an existing
  destination file is replaced.\<close>

definition shutil_move ::
  "('a, 'h) filesystem \<Rightarrow> string \<Rightarrow> string \<Rightarrow> string \<Rightarrow> string \<Rightarrow> error + ('a, 'h) filesystem" where
  "shutil_move fs src_dir src_name dst_dir dst_name =
     (case read_file fs src_dir src_name of
        None \<Rightarrow> Inl FileNotFoundError
      | Some c \<Rightarrow> Inr (write_file (remove_file fs src_dir src_name) dst_dir dst_name c))"

text \<open>\<open>shutil.copytree(src, dst, dirs_exist_ok=True)\<close>: every entry of \<open>src\<close> is copied
  over \<open>dst\<close>; copying a directory onto itself raises.\<close>

definition copytree ::
  "('a, 'h) filesystem \<Rightarrow> string \<Rightarrow> string \<Rightarrow> error + ('a, 'h) filesystem" where
  "copytree fs src dst =
     (if src = dst \<and> fs src \<noteq> [] then Inl ShutilError
      else Inr (fold (\<lambda>(fname, c) fs'. write_file fs' dst fname c) (fs src) fs))"


section \<open>Pair Splitter\<close>

text \<open>The inner \<open>for prefix in prefixes: ... break\<close>: the first prefix the name starts with.\<close>

fun first_prefix :: "string list \<Rightarrow> string \<Rightarrow> string option" where
  "first_prefix [] fname = None"
| "first_prefix (prefix # rest) fname =
     (if startswith fname prefix then Some prefix else first_prefix rest fname)"

text \<open>\<open>grouped\<close> is a \<open>defaultdict(list)\<close>: a total function whose default is \<open>[]\<close>.\<close>

definition collect_image_files_by_prefix ::
  "('a, 'h) filesystem \<Rightarrow> string \<Rightarrow> string list \<Rightarrow> (string \<Rightarrow> string list)" where
  "collect_image_files_by_prefix fs images_dir prefixes =
     fold (\<lambda>fname grouped.
             if nii_gz fname then
               (case first_prefix prefixes fname of
                  None \<Rightarrow> grouped
                | Some prefix \<Rightarrow> grouped(prefix := grouped prefix @ [fname]))
             else grouped)
          (listdir fs images_dir) (\<lambda>_. [])"

definition collect_label_set :: "('a, 'h) filesystem \<Rightarrow> string \<Rightarrow> string set" where
  "collect_label_set fs labels_dir =
     set (map (\<lambda>fname. replace fname ''.nii.gz'' '''') (filter nii_gz (listdir fs labels_dir)))"

text \<open>
  The matching loop of one prefix, lines 33 to 40: the name is appended when its case
  identifier is in the label set, and the length test that breaks the loop comes after it.
\<close>

fun collect_matched ::
  "string set \<Rightarrow> int \<Rightarrow> string list \<Rightarrow> (string \<times> string) list \<Rightarrow> (string \<times> string) list" where
  "collect_matched label_set max_per_prefix [] matched = matched"
| "collect_matched label_set max_per_prefix (fname # rest) matched =
     (let base_id = strip_image_id fname;
          label_fname = base_id @ ''.nii.gz'';
          matched' = (if base_id \<in> label_set then matched @ [(fname, label_fname)] else matched)
      in if int (length matched') \<ge> max_per_prefix then matched'
         else collect_matched label_set max_per_prefix rest matched')"

text \<open>\<open>sorted(image_groups[prefix], reverse=True)\<close> and the loop over it.\<close>

definition matched_pairs ::
  "(string \<Rightarrow> string list) \<Rightarrow> string set \<Rightarrow> int \<Rightarrow> string \<Rightarrow> (string \<times> string) list" where
  "matched_pairs image_groups label_set max_per_prefix prefix =
     collect_matched label_set max_per_prefix (rev (sort (image_groups prefix))) []"

text \<open>The two \<open>shutil.move\<close> calls for each matched pair, lines 44 to 46.\<close>

fun move_pairs ::
  "('a, 'h) filesystem \<Rightarrow> string \<Rightarrow> string \<Rightarrow> string \<Rightarrow> string \<Rightarrow> (string \<times> string) list
     \<Rightarrow> error + ('a, 'h) filesystem" where
  "move_pairs fs images_dir labels_dir output_images_dir output_labels_dir [] = Inr fs"
| "move_pairs fs images_dir labels_dir output_images_dir output_labels_dir
       ((image_fname, label_fname) # rest) =
     (case shutil_move fs images_dir image_fname output_images_dir image_fname of
        Inl e \<Rightarrow> Inl e
      | Inr fs1 \<Rightarrow>
          (case shutil_move fs1 labels_dir label_fname output_labels_dir label_fname of
             Inl e \<Rightarrow> Inl e
           | Inr fs2 \<Rightarrow>
               move_pairs fs2 images_dir labels_dir output_images_dir output_labels_dir rest))"

fun move_prefixes ::
  "('a, 'h) filesystem \<Rightarrow> string \<Rightarrow> string \<Rightarrow> string \<Rightarrow> string \<Rightarrow> (string \<Rightarrow> string list)
     \<Rightarrow> string set \<Rightarrow> int \<Rightarrow> string list \<Rightarrow> error + ('a, 'h) filesystem" where
  "move_prefixes fs images_dir labels_dir output_images_dir output_labels_dir
       image_groups label_set max_per_prefix [] = Inr fs"
| "move_prefixes fs images_dir labels_dir output_images_dir output_labels_dir
       image_groups label_set max_per_prefix (prefix # rest) =
     (case move_pairs fs images_dir labels_dir output_images_dir output_labels_dir
             (matched_pairs image_groups label_set max_per_prefix prefix) of
        Inl e \<Rightarrow> Inl e
      | Inr fs' \<Rightarrow>
          move_prefixes fs' images_dir labels_dir output_images_dir output_labels_dir
            image_groups label_set max_per_prefix rest)"

definition move_matched_pairs ::
  "('a, 'h) filesystem \<Rightarrow> string \<Rightarrow> string \<Rightarrow> string \<Rightarrow> string \<Rightarrow> string list \<Rightarrow> int
     \<Rightarrow> error + ('a, 'h) filesystem" where
  "move_matched_pairs fs images_dir labels_dir output_images_dir output_labels_dir
       prefixes max_per_prefix =
     move_prefixes fs images_dir labels_dir output_images_dir output_labels_dir
       (collect_image_files_by_prefix fs images_dir prefixes)
       (collect_label_set fs labels_dir) max_per_prefix prefixes"


section \<open>Label Remapper\<close>

text \<open>
  The label table \<open>data["labels"]\<close> is the list of its items in the order of the
  \<open>dict\<close>, each value already passed through \<open>int\<close> (the only way the function reads it).
  \<open>sort_key\<close> is a stable insertion sort, as \<open>sorted\<close> is stable.
\<close>

definition enumerate_py :: "'a list \<Rightarrow> (int \<times> 'a) list" where
  "enumerate_py xs = zip (map int [0..<length xs]) xs"

definition label_items :: "(string \<times> int) list \<Rightarrow> (string \<times> int) list" where
  "label_items original_labels = sort_key snd original_labels"

definition new_id_map :: "(string \<times> int) list \<Rightarrow> (int \<times> int) list" where
  "new_id_map original_labels =
     fold (\<lambda>(new_id, (name, old_id)) d. AList.update old_id new_id d)
          (enumerate_py (label_items original_labels)) []"

definition remapped_labels :: "(string \<times> int) list \<Rightarrow> (string \<times> int) list" where
  "remapped_labels original_labels =
     fold (\<lambda>(new_id, (name, old_id)) d. AList.update name new_id d)
          (enumerate_py (label_items original_labels)) []"

definition output_dict :: "(string \<times> int) list \<Rightarrow> int \<Rightarrow> (string \<times> json) list" where
  "output_dict original_labels num_training =
     [(''labels'', JObj (map (\<lambda>(name, new_id). (name, JInt new_id))
                             (remapped_labels original_labels))),
      (''numTraining'', JInt (num_training + 1)),
      (''numTest'', JInt 51),
      (''file_ending'', JStr ''.nii.gz''),
      (''channel_names'', JObj [(''0'', JStr ''CBCT'')])]"

text \<open>The function writes the descriptor to \<open>save_json_path\<close> and returns the mapping.\<close>

definition remap_label_ids_from_json ::
  "('a, 'h) filesystem \<Rightarrow> (string \<times> int) list \<Rightarrow> string \<Rightarrow> string \<Rightarrow> int
     \<Rightarrow> ('a, 'h) filesystem \<times> (int \<times> int) list" where
  "remap_label_ids_from_json fs original_labels save_dir save_name num_training =
     (write_file fs save_dir save_name (Json (JObj (output_dict original_labels num_training))),
      new_id_map original_labels)"


section \<open>Volume Relabeler\<close>

text \<open>
  \<open>remapped_data[data == old_id] = new_id\<close> on \<open>uint16\<close> arrays: a voxel matches when
  its value, read as an integer, is \<open>old_id\<close>; storing a Python integer that does not fit
  \<open>uint16\<close> raises \<open>OverflowError\<close> (NumPy 2), whether or not a voxel matches.
\<close>

definition masked_assign ::
  "16 word list \<Rightarrow> 16 word list \<Rightarrow> int \<Rightarrow> int \<Rightarrow> error + 16 word list" where
  "masked_assign data remapped_data old_id new_id =
     (if 0 \<le> new_id \<and> new_id < 65536
      then Inr (map2 (\<lambda>d r. if uint d = old_id then word_of_int new_id else r) data remapped_data)
      else Inl OverflowError)"

fun remap_loop ::
  "16 word list \<Rightarrow> 16 word list \<Rightarrow> (int \<times> int) list \<Rightarrow> error + 16 word list" where
  "remap_loop data remapped_data [] = Inr remapped_data"
| "remap_loop data remapped_data ((old_id, new_id) # rest) =
     (case masked_assign data remapped_data old_id new_id of
        Inl e \<Rightarrow> Inl e
      | Inr remapped_data' \<Rightarrow> remap_loop data remapped_data' rest)"

text \<open>Lines 76 to 82: the new image object built from a loaded one.\<close>

definition remap_image :: "('a, 'h) nifti \<Rightarrow> (int \<times> int) list \<Rightarrow> error + ('a, 'h) nifti" where
  "remap_image img id_mapping =
     (case remap_loop (voxels img) (replicate (length (voxels img)) 0) id_mapping of
        Inl e \<Rightarrow> Inl e
      | Inr remapped_data \<Rightarrow>
          Inr \<lparr>voxels = remapped_data, affine = affine img, header = header img\<rparr>)"

text \<open>
  Line 83, \<open>nib.save(new_img, output_path)\<close>. The image was built with
  \<open>header=img.header\<close>, so nibabel writes the array in the data type recorded in the header
  of the input, and rescales an array that this data type cannot hold. nibabel is not part
  of the repository: what a voxel value of the array reads back as from the written file,
  given the header and the whole array, is the parameter \<open>on_disk\<close>. The file written has
  the affine and the header of the image and, voxel by voxel, the values read back.
\<close>

type_synonym 'h on_disk = "'h \<Rightarrow> 16 word list \<Rightarrow> 16 word \<Rightarrow> 16 word"

definition nib_save :: "'h on_disk \<Rightarrow> ('a, 'h) nifti \<Rightarrow> ('a, 'h) content" where
  "nib_save on_disk new_img =
     Nifti (new_img\<lparr>voxels := map (on_disk (header new_img) (voxels new_img)) (voxels new_img)\<rparr>)"

definition remap_labels_in_nii ::
  "'h on_disk \<Rightarrow> ('a, 'h) filesystem \<Rightarrow> string \<Rightarrow> string \<Rightarrow> string \<Rightarrow> string
     \<Rightarrow> (int \<times> int) list \<Rightarrow> error + ('a, 'h) filesystem" where
  "remap_labels_in_nii on_disk fs input_dir input_name output_dir output_name id_mapping =
     (case read_file fs input_dir input_name of
        None \<Rightarrow> Inl FileNotFoundError
      | Some (Nifti img) \<Rightarrow>
          (case remap_image img id_mapping of
             Inl e \<Rightarrow> Inl e
           | Inr new_img \<Rightarrow>
               Inr (write_file fs output_dir output_name (nib_save on_disk new_img)))
      | Some _ \<Rightarrow> Inl ImageFileError)"

fun remap_files ::
  "'h on_disk \<Rightarrow> ('a, 'h) filesystem \<Rightarrow> string \<Rightarrow> string \<Rightarrow> (int \<times> int) list \<Rightarrow> string list
     \<Rightarrow> error + ('a, 'h) filesystem" where
  "remap_files on_disk fs label_dir output_dir id_mapping [] = Inr fs"
| "remap_files on_disk fs label_dir output_dir id_mapping (fname # rest) =
     (if nii_gz fname then
        (case remap_labels_in_nii on_disk fs label_dir fname output_dir fname id_mapping of
           Inl e \<Rightarrow> Inl e
         | Inr fs' \<Rightarrow> remap_files on_disk fs' label_dir output_dir id_mapping rest)
      else remap_files on_disk fs label_dir output_dir id_mapping rest)"

definition remap_all_labels ::
  "'h on_disk \<Rightarrow> ('a, 'h) filesystem \<Rightarrow> string \<Rightarrow> string \<Rightarrow> (int \<times> int) list
     \<Rightarrow> error + ('a, 'h) filesystem" where
  "remap_all_labels on_disk fs label_dir output_dir id_mapping =
     remap_files on_disk fs label_dir output_dir id_mapping (listdir fs label_dir)"


section \<open>The pipeline\<close>

definition prefixes_main :: "string list" where
  "prefixes_main = [''ToothFairy3F'', ''ToothFairy3P'', ''ToothFairy3S'']"

text \<open>Line 109: the remapper is called with the placeholder \<open>num_training=0\<close>.\<close>

definition main_remap ::
  "('a, 'h) filesystem \<Rightarrow> string \<Rightarrow> (string \<times> int) list
     \<Rightarrow> ('a, 'h) filesystem \<times> (int \<times> int) list" where
  "main_remap fs output_root original_labels =
     remap_label_ids_from_json fs original_labels output_root ''dataset.json'' 0"

text \<open>Lines 119 to 128: the counts and the patch of the descriptor.\<close>

definition num_train_of :: "('a, 'h) filesystem \<Rightarrow> string \<Rightarrow> string \<Rightarrow> int" where
  "num_train_of fs output_labelsTr_dir output_labelsVal_dir =
     (let total_labels = filter nii_gz (listdir fs output_labelsTr_dir);
          num_val = length (filter nii_gz (listdir fs output_labelsVal_dir))
      in int (length total_labels) - int num_val)"

definition finalize ::
  "('a, 'h) filesystem \<Rightarrow> string \<Rightarrow> int \<Rightarrow> error + ('a, 'h) filesystem" where
  "finalize fs output_root num_train =
     (case read_file fs output_root ''dataset.json'' of
        None \<Rightarrow> Inl FileNotFoundError
      | Some (Json (JObj dataset)) \<Rightarrow>
          Inr (write_file fs output_root ''dataset.json''
                 (Json (JObj (AList.update ''numTraining'' (JInt num_train) dataset))))
      | Some (Json _) \<Rightarrow> Inl TypeError
      | Some _ \<Rightarrow> Inl JSONDecodeError)"

text \<open>
  \<open>main(input_root, output_root)\<close>; \<open>original_labels\<close> is the label table of the input
  \<open>dataset.json\<close>, \<open>on_disk\<close> is what nibabel's writer stores. With an empty output root, \<open>os.path.dirname(output_json_path)\<close> is
  the empty path and \<open>os.makedirs\<close> raises before anything is written (line 108).
\<close>

definition main ::
  "'h on_disk \<Rightarrow> ('a, 'h) filesystem \<Rightarrow> string \<Rightarrow> string \<Rightarrow> (string \<times> int) list
     \<Rightarrow> error + ('a, 'h) filesystem" where
  "main on_disk fs input_root output_root original_labels =
     (if output_root = [] then Inl FileNotFoundError else
      let input_images_dir = path_join input_root ''imagesTr'';
          input_labels_dir = path_join input_root ''labelsTr'';
          output_imagesTr_dir = path_join output_root ''imagesTr'';
          output_labelsTr_dir = path_join output_root ''labelsTr'';
          output_imagesVal_dir = path_join output_root ''imagesVal'';
          output_labelsVal_dir = path_join output_root ''labelsVal'';
          (fs1, id_mapping) = main_remap fs output_root original_labels
      in case remap_all_labels on_disk fs1 input_labels_dir output_labelsTr_dir id_mapping of
           Inl e \<Rightarrow> Inl e
         | Inr fs2 \<Rightarrow>
        (case copytree fs2 input_images_dir output_imagesTr_dir of
           Inl e \<Rightarrow> Inl e
         | Inr fs3 \<Rightarrow>
        (case move_matched_pairs fs3 output_imagesTr_dir output_labelsTr_dir
                output_imagesVal_dir output_labelsVal_dir prefixes_main 17 of
           Inl e \<Rightarrow> Inl e
         | Inr fs4 \<Rightarrow>
             finalize fs4 output_root
               (num_train_of fs4 output_labelsTr_dir output_labelsVal_dir))))"


section \<open>Auxiliary notions and example inputs\<close>

text \<open>The entries of a directory whose names do not end in \<open>.nii.gz\<close>.\<close>

definition other_entries :: "('a, 'h) filesystem \<Rightarrow> string \<Rightarrow> (string \<times> ('a, 'h) content) list" where
  "other_entries fs d = filter (\<lambda>(fname, c). \<not> nii_gz fname) (fs d)"

text \<open>Two listings of the same training directories, in different orders.\<close>

definition example_split_fs :: "(unit, unit) filesystem" where
  "example_split_fs = (\<lambda>d.
     if d = ''imagesTr'' then
       [(''ToothFairy3F_001_0000.nii.gz'', Other ''image 1''),
        (''ToothFairy3F_002_0000.nii.gz'', Other ''image 2''),
        (''notes.txt'', Other ''notes'')]
     else if d = ''labelsTr'' then
       [(''ToothFairy3F_001.nii.gz'', Other ''label 1''),
        (''ToothFairy3F_002.nii.gz'', Other ''label 2'')]
     else [])"

definition example_split_fs_reordered :: "(unit, unit) filesystem" where
  "example_split_fs_reordered = (\<lambda>d.
     if d = ''imagesTr'' then
       [(''notes.txt'', Other ''notes''),
        (''ToothFairy3F_002_0000.nii.gz'', Other ''image 2''),
        (''ToothFairy3F_001_0000.nii.gz'', Other ''image 1'')]
     else if d = ''labelsTr'' then
       [(''ToothFairy3F_002.nii.gz'', Other ''label 2''),
        (''ToothFairy3F_001.nii.gz'', Other ''label 1'')]
     else [])"


text \<open>
  Nine cases of one prefix, each with two channel images and its label: eighteen images,
  each with its label file present.
\<close>

definition example_two_channel_fs :: "(unit, unit) filesystem" where
  "example_two_channel_fs = (\<lambda>d.
     if d = ''imagesTr'' then
       [
        (''ToothFairy3F_001_0000.nii.gz'', Other ''image''),
        (''ToothFairy3F_001_0001.nii.gz'', Other ''image''),
        (''ToothFairy3F_002_0000.nii.gz'', Other ''image''),
        (''ToothFairy3F_002_0001.nii.gz'', Other ''image''),
        (''ToothFairy3F_003_0000.nii.gz'', Other ''image''),
        (''ToothFairy3F_003_0001.nii.gz'', Other ''image''),
        (''ToothFairy3F_004_0000.nii.gz'', Other ''image''),
        (''ToothFairy3F_004_0001.nii.gz'', Other ''image''),
        (''ToothFairy3F_005_0000.nii.gz'', Other ''image''),
        (''ToothFairy3F_005_0001.nii.gz'', Other ''image''),
        (''ToothFairy3F_006_0000.nii.gz'', Other ''image''),
        (''ToothFairy3F_006_0001.nii.gz'', Other ''image''),
        (''ToothFairy3F_007_0000.nii.gz'', Other ''image''),
        (''ToothFairy3F_007_0001.nii.gz'', Other ''image''),
        (''ToothFairy3F_008_0000.nii.gz'', Other ''image''),
        (''ToothFairy3F_008_0001.nii.gz'', Other ''image''),
        (''ToothFairy3F_009_0000.nii.gz'', Other ''image''),
        (''ToothFairy3F_009_0001.nii.gz'', Other ''image'')]
     else if d = ''labelsTr'' then
       [
        (''ToothFairy3F_001.nii.gz'', Other ''label''),
        (''ToothFairy3F_002.nii.gz'', Other ''label''),
        (''ToothFairy3F_003.nii.gz'', Other ''label''),
        (''ToothFairy3F_004.nii.gz'', Other ''label''),
        (''ToothFairy3F_005.nii.gz'', Other ''label''),
        (''ToothFairy3F_006.nii.gz'', Other ''label''),
        (''ToothFairy3F_007.nii.gz'', Other ''label''),
        (''ToothFairy3F_008.nii.gz'', Other ''label''),
        (''ToothFairy3F_009.nii.gz'', Other ''label'')]
     else [])"

text \<open>
  Two writers: one for a header whose data type holds the array, which is written as it
  is; and one that, as nibabel's scaling writer does under an 8-bit unsigned header, writes
  an array as it is when its range fits 8 bits and otherwise scales the range to
  \<open>0..255\<close>, rounds, and scales back on reading (in exact arithmetic).
\<close>

definition stored_as_is :: "'h on_disk" where
  "stored_as_is h arr v = v"



text \<open>An input tree with one image and its label, and a note in both image directories.\<close>

definition example_main_fs :: "(unit, unit) filesystem" where
  "example_main_fs = (\<lambda>d.
     if d = ''in/imagesTr'' then
       [(''ToothFairy3F_001_0000.nii.gz'', Other ''image 1''),
        (''notes.txt'', Other ''new notes'')]
     else if d = ''in/labelsTr'' then
       [(''ToothFairy3F_001.nii.gz'', Nifti \<lparr>voxels = [0, 7], affine = (), header = ()\<rparr>)]
     else if d = ''out/imagesTr'' then
       [(''notes.txt'', Other ''old notes'')]
     else [])"

definition example_labels :: "(string \<times> int) list" where
  "example_labels = [(''background'', 0), (''tooth'', 7)]"


section \<open>Properties of the Label Remapper\<close>

lemma read_file_write_file_same:
  "read_file (write_file fs d fname c) d fname = Some c"
  by (simp add: read_file_def write_file_def update_conv')

lemma output_dict_numTraining:
  "map_of (output_dict original_labels p) ''numTraining'' = Some (JInt (p + 1))"
  by (simp add: output_dict_def)

text \<open>
  The new ID of an original ID \<open>k\<close> is the position of its last occurrence in the sorted
  items, that is, the number of labels whose original ID is at most \<open>k\<close>, minus one.
\<close>

lemma enumerate_py_snoc:
  "enumerate_py (xs @ [x]) = enumerate_py xs @ [(int (length xs), x)]"
  by (simp add: enumerate_py_def)

lemma filter_le_all:
  "\<forall>y\<in>set xs. P y \<Longrightarrow> length (filter P xs) = length xs"
  by (induction xs) auto

lemma ids_fold_lookup:
  "sorted (map snd xs) \<Longrightarrow>
   map_of (fold (\<lambda>(new_id, (name, old_id)) d. AList.update old_id new_id d) (enumerate_py xs) []) k =
     (if k \<in> snd ` set xs then Some (int (length (filter (\<lambda>y. snd y \<le> k) xs)) - 1) else None)"
proof (induction xs rule: rev_induct)
  case Nil
  then show ?case by (simp add: enumerate_py_def)
next
  case (snoc x xs)
  obtain name old where x: "x = (name, old)" by (cases x)
  from snoc.prems have srt: "sorted (map snd xs)" and le: "\<forall>y\<in>set xs. snd y \<le> old"
    by (auto simp: x sorted_append)
  note IH = snoc.IH [OF srt]
  show ?case
  proof (cases "k = old")
    case True
    with le have "length (filter (\<lambda>y. snd y \<le> k) xs) = length xs"
      by (intro filter_le_all) simp
    with True show ?thesis
      by (simp add: enumerate_py_snoc x update_conv')
  next
    case False
    show ?thesis
    proof (cases "k \<in> snd ` set xs")
      case True
      with le False have "\<not> old \<le> k" by auto
      with True False IH show ?thesis
        by (simp add: enumerate_py_snoc x update_conv')
    next
      case F2: False
      with False IH show ?thesis
        by (simp add: enumerate_py_snoc x update_conv')
    qed
  qed
qed

lemma length_filter_sort_key:
  "length (filter P (sort_key f xs)) = length (filter P xs)"
proof -
  have ins: "length (filter P (insort_key f x ys)) = length (filter P (x # ys))" for x ys
    by (induction ys) auto
  show ?thesis
    by (induction xs) (simp_all add: ins)
qed

lemma new_id_map_lookup:
  "map_of (new_id_map original_labels) k =
     (if k \<in> snd ` set original_labels
      then Some (int (length (filter (\<lambda>y. snd y \<le> k) original_labels)) - 1) else None)"
  unfolding new_id_map_def label_items_def
  by (subst ids_fold_lookup) (simp_all add: length_filter_sort_key)

lemma length_filter_strict:
  "\<forall>y. P y \<longrightarrow> Q y \<Longrightarrow> z \<in> set xs \<Longrightarrow> Q z \<Longrightarrow> \<not> P z \<Longrightarrow>
   length (filter P xs) < length (filter Q xs)"
proof (induction xs)
  case Nil
  then show ?case by simp
next
  case (Cons x xs)
  have mono: "length (filter P xs) \<le> length (filter Q xs)"
    using Cons.prems(1) by (induction xs) auto
  show ?case
  proof (cases "z = x")
    case True
    with Cons.prems mono show ?thesis by simp
  next
    case False
    with Cons have "length (filter P xs) < length (filter Q xs)" by simp
    with Cons.prems(1) show ?thesis by auto
  qed
qed

lemma new_id_map_strict_mono:
  assumes "a \<in> snd ` set tbl" "b \<in> snd ` set tbl" "a < b"
  shows "the (map_of (new_id_map tbl) a) < the (map_of (new_id_map tbl) b)"
proof -
  from assms(2) obtain z where z: "z \<in> set tbl" "snd z = b" by auto
  have "length (filter (\<lambda>y. snd y \<le> a) tbl) < length (filter (\<lambda>y. snd y \<le> b) tbl)"
    using z assms(3) by (intro length_filter_strict [of _ _ z]) auto
  with assms show ?thesis by (simp add: new_id_map_lookup)
qed

lemma new_id_map_range:
  assumes "a \<in> snd ` set tbl"
  shows "the (map_of (new_id_map tbl) a) \<in> {0..<int (length tbl)}"
proof -
  from assms obtain z where z: "z \<in> set tbl" "snd z = a" by auto
  have "length (filter (\<lambda>y. False) tbl) < length (filter (\<lambda>y. snd y \<le> a) tbl)"
    using z by (intro length_filter_strict [of _ _ z]) auto
  then have pos: "0 < length (filter (\<lambda>y. snd y \<le> a) tbl)" by simp
  have le: "length (filter (\<lambda>y. snd y \<le> a) tbl) \<le> length tbl" by simp
  have "the (map_of (new_id_map tbl) a) = int (length (filter (\<lambda>y. snd y \<le> a) tbl)) - 1"
    using assms by (simp add: new_id_map_lookup)
  with pos le show ?thesis
    unfolding atLeastLessThan_iff by linarith
qed

lemma new_id_map_bij:
  assumes "distinct (map snd tbl)"
  shows "bij_betw (\<lambda>k. the (map_of (new_id_map tbl) k)) (snd ` set tbl) {0..<int (card (snd ` set tbl))}"
proof -
  let ?f = "\<lambda>k. the (map_of (new_id_map tbl) k)"
  let ?S = "snd ` set tbl"
  have card: "card ?S = length tbl"
    using assms by (metis distinct_card length_map set_map)
  have inj: "inj_on ?f ?S"
  proof (rule inj_onI)
    fix a b assume "a \<in> ?S" "b \<in> ?S" "?f a = ?f b"
    then show "a = b"
      using new_id_map_strict_mono [of a tbl b] new_id_map_strict_mono [of b tbl a]
      by (cases a b rule: linorder_cases) auto
  qed
  have sub: "?f ` ?S \<subseteq> {0..<int (length tbl)}"
    using new_id_map_range [of _ tbl] by blast
  have "card (?f ` ?S) = card {0..<int (length tbl)}"
    using inj card by (simp add: card_image)
  with sub have "?f ` ?S = {0..<int (length tbl)}"
    by (intro card_subset_eq) auto
  with inj card show ?thesis by (simp add: bij_betw_def)
qed

text \<open>
  C9. For every placeholder \<open>p\<close> the descriptor the remapper writes has
  \<open>numTraining = p + 1\<close>; the pipeline calls it with \<open>0\<close>, so the descriptor on disk
  before the final patch has \<open>numTraining = 1\<close>.
\<close>

theorem remapper_writes_placeholder_plus_one:
  "read_file (fst (remap_label_ids_from_json fs original_labels save_dir save_name p))
       save_dir save_name = Some (Json (JObj (output_dict original_labels p)))
   \<and> map_of (output_dict original_labels p) ''numTraining'' = Some (JInt (p + 1))
   \<and> JInt (p + 1) \<noteq> JInt p
   \<and> read_file (fst (main_remap fs output_root original_labels)) output_root ''dataset.json''
       = Some (Json (JObj (output_dict original_labels 0)))
   \<and> map_of (output_dict original_labels 0) ''numTraining'' = Some (JInt 1)"
  by (simp add: remap_label_ids_from_json_def main_remap_def read_file_write_file_same
      output_dict_numTraining)

text \<open>
  C2, as the spec states it: for the table \<open>{"Tooth": 5, "Bone": 2, "Gum": 2}\<close> the ID
  mapping would be \<open>{2: 0, 5: 1}\<close>. It is not: the second entry with original ID 2
  overwrites the first, and the enumeration index is not reset.
\<close>

theorem scenario_mapping_is_not_2_0_5_1:
  "\<not> (map_of (snd (remap_label_ids_from_json (\<lambda>d. [] :: (string \<times> (unit, unit) content) list)
                  [(''Tooth'', 5), (''Bone'', 2), (''Gum'', 2)] ''out'' ''dataset.json'' 0))
        = map_of [(2, 0), (5, 1)])"
proof
  assume "map_of (snd (remap_label_ids_from_json (\<lambda>d. [] :: (string \<times> (unit, unit) content) list)
                  [(''Tooth'', 5), (''Bone'', 2), (''Gum'', 2)] ''out'' ''dataset.json'' 0))
        = map_of [(2, 0), (5, 1)]"
  then have "map_of (new_id_map [(''Tooth'', 5), (''Bone'', 2), (''Gum'', 2)]) 2
             = map_of [(2, 0), (5, 1 :: int)] (2 :: int)"
    by (simp add: remap_label_ids_from_json_def)
  then show False
    by (simp add: new_id_map_lookup)
qed

text \<open>
  C2, amended: for the table \<open>{"Tooth": 5, "Bone": 2, "Gum": 2}\<close> the remapper returns the
  ID mapping \<open>{2: 1, 5: 2}\<close> and writes the label table \<open>{"Bone": 0, "Gum": 1, "Tooth": 2}\<close>.
\<close>

theorem scenario_mapping_and_label_table:
  "snd (remap_label_ids_from_json fs [(''Tooth'', 5), (''Bone'', 2), (''Gum'', 2)]
          save_dir save_name p) = [(2, 1), (5, 2)]
   \<and> read_file (fst (remap_label_ids_from_json fs [(''Tooth'', 5), (''Bone'', 2), (''Gum'', 2)]
          save_dir save_name p)) save_dir save_name
       = Some (Json (JObj
           [(''labels'', JObj [(''Bone'', JInt 0), (''Gum'', JInt 1), (''Tooth'', JInt 2)]),
            (''numTraining'', JInt (p + 1)),
            (''numTest'', JInt 51),
            (''file_ending'', JStr ''.nii.gz''),
            (''channel_names'', JObj [(''0'', JStr ''CBCT'')])]))"
proof -
  have items: "label_items [(''Tooth'', 5), (''Bone'', 2), (''Gum'', 2)]
                 = [(''Bone'', 2), (''Gum'', 2), (''Tooth'', 5)]"
    by (simp add: label_items_def)
  have enum: "enumerate_py [(''Bone'', 2::int), (''Gum'', 2), (''Tooth'', 5)]
                = [(0, (''Bone'', 2)), (1, (''Gum'', 2)), (2, (''Tooth'', 5))]"
    by (simp add: enumerate_py_def upt_rec)
  have m: "new_id_map [(''Tooth'', 5), (''Bone'', 2), (''Gum'', 2)] = [(2, 1), (5, 2)]"
    by (simp add: new_id_map_def items enum)
  have r: "remapped_labels [(''Tooth'', 5), (''Bone'', 2), (''Gum'', 2)]
             = [(''Bone'', 0), (''Gum'', 1), (''Tooth'', 2)]"
    by (simp add: remapped_labels_def items enum)
  show ?thesis
    by (simp add: remap_label_ids_from_json_def read_file_write_file_same m output_dict_def r)
qed

text \<open>
  C3, as the spec states it: for every label table the ID mapping is a bijection from the
  original IDs present onto \<open>{0, ..., N-1}\<close>, \<open>N\<close> the number of distinct original IDs.
  A table in which two names share an original ID refutes it: the new IDs are \<open>1\<close> and
  \<open>2\<close>, not \<open>0\<close> and \<open>1\<close>.
\<close>

theorem mapping_not_onto_with_shared_id:
  "\<not> bij_betw
        (\<lambda>k. the (map_of (snd (remap_label_ids_from_json
                 (\<lambda>d. [] :: (string \<times> (unit, unit) content) list)
                 [(''Bone'', 2), (''Gum'', 2), (''Tooth'', 5)] ''out'' ''dataset.json'' 0)) k))
        (snd ` set [(''Bone'', 2 :: int), (''Gum'', 2), (''Tooth'', 5)])
        {0..<int (card (snd ` set [(''Bone'', 2 :: int), (''Gum'', 2), (''Tooth'', 5)]))}"
proof
  let ?tbl = "[(''Bone'', 2 :: int), (''Gum'', 2), (''Tooth'', 5)]"
  let ?f = "\<lambda>k. the (map_of (snd (remap_label_ids_from_json
                 (\<lambda>d. [] :: (string \<times> (unit, unit) content) list)
                 ?tbl ''out'' ''dataset.json'' 0)) k)"
  assume "bij_betw ?f (snd ` set ?tbl) {0..<int (card (snd ` set ?tbl))}"
  then have img: "?f ` (snd ` set ?tbl) = {0..<int (card (snd ` set ?tbl))}"
    by (simp only: bij_betw_def)
  have "(0 :: int) \<in> {0..<int (card (snd ` set ?tbl))}"
    by simp
  with img have "0 \<in> ?f ` (snd ` set ?tbl)"
    by (simp only:)
  then show False
    by (simp add: remap_label_ids_from_json_def new_id_map_lookup)
qed

text \<open>
  C3, amended: for every label table the ID mapping is defined exactly on the original IDs
  present, is strictly order-preserving on them (hence injective) and takes its values in
  \<open>{0, ..., M-1}\<close>, \<open>M\<close> the number of labels; when the original IDs of the table are
  pairwise distinct it is a bijection onto \<open>{0, ..., N-1}\<close>, \<open>N\<close> the number of distinct
  original IDs.
\<close>

theorem id_mapping_order_preserving_bijection:
  fixes fs :: "('a, 'h) filesystem"
    and original_labels :: "(string \<times> int) list"
    and save_dir save_name :: string
    and p :: int
  defines "m \<equiv> map_of (snd (remap_label_ids_from_json fs original_labels save_dir save_name p))"
  defines "ids \<equiv> snd ` set original_labels"
  shows "dom m = ids
     \<and> (\<forall>a\<in>ids. \<forall>b\<in>ids. a < b \<longrightarrow> the (m a) < the (m b))
     \<and> (\<forall>a\<in>ids. the (m a) \<in> {0..<int (length original_labels)})
     \<and> (distinct (map snd original_labels) \<longrightarrow>
          bij_betw (\<lambda>k. the (m k)) ids {0..<int (card ids)})"
proof -
  have m: "m = map_of (new_id_map original_labels)"
    by (simp add: m_def remap_label_ids_from_json_def)
  have "dom m = ids"
    unfolding m ids_def by (auto simp: new_id_map_lookup dom_def)
  moreover have "\<forall>a\<in>ids. \<forall>b\<in>ids. a < b \<longrightarrow> the (m a) < the (m b)"
    unfolding m ids_def using new_id_map_strict_mono by blast
  moreover have "\<forall>a\<in>ids. the (m a) \<in> {0..<int (length original_labels)}"
    unfolding m ids_def using new_id_map_range by blast
  moreover have "distinct (map snd original_labels) \<longrightarrow>
          bij_betw (\<lambda>k. the (m k)) ids {0..<int (card ids)}"
    unfolding m ids_def using new_id_map_bij by blast
  ultimately show ?thesis by blast
qed

theorem id_mapping_order_preserving_bijection_witness:
  "distinct (map snd [(''Tooth'', 5 :: int), (''Bone'', 2)])
   \<and> (2 :: int) \<in> snd ` set [(''Tooth'', 5), (''Bone'', 2)]
   \<and> (5 :: int) \<in> snd ` set [(''Tooth'', 5), (''Bone'', 2)]
   \<and> (2 :: int) < 5
   \<and> the (map_of (snd (remap_label_ids_from_json
          (\<lambda>d. [] :: (string \<times> (unit, unit) content) list)
          [(''Tooth'', 5), (''Bone'', 2)] ''out'' ''dataset.json'' 0)) 2)
       < the (map_of (snd (remap_label_ids_from_json
          (\<lambda>d. [] :: (string \<times> (unit, unit) content) list)
          [(''Tooth'', 5), (''Bone'', 2)] ''out'' ''dataset.json'' 0)) 5)
   \<and> bij_betw
        (\<lambda>k. the (map_of (snd (remap_label_ids_from_json
          (\<lambda>d. [] :: (string \<times> (unit, unit) content) list)
          [(''Tooth'', 5), (''Bone'', 2)] ''out'' ''dataset.json'' 0)) k))
        (snd ` set [(''Tooth'', 5 :: int), (''Bone'', 2)])
        {0..<int (card (snd ` set [(''Tooth'', 5 :: int), (''Bone'', 2)]))}"
proof -
  have d: "distinct (map snd [(''Tooth'', 5 :: int), (''Bone'', 2)])" by simp
  have i2: "(2 :: int) \<in> snd ` set [(''Tooth'', 5), (''Bone'', 2)]" by simp
  have i5: "(5 :: int) \<in> snd ` set [(''Tooth'', 5), (''Bone'', 2)]" by simp
  have lt: "(2 :: int) < 5" by simp
  note inst = id_mapping_order_preserving_bijection
    [of "\<lambda>d. [] :: (string \<times> (unit, unit) content) list"
        "[(''Tooth'', 5), (''Bone'', 2)]" "''out''" "''dataset.json''" 0]
  from inst i2 i5 lt have mono: "the (map_of (snd (remap_label_ids_from_json
          (\<lambda>d. [] :: (string \<times> (unit, unit) content) list)
          [(''Tooth'', 5), (''Bone'', 2)] ''out'' ''dataset.json'' 0)) 2)
       < the (map_of (snd (remap_label_ids_from_json
          (\<lambda>d. [] :: (string \<times> (unit, unit) content) list)
          [(''Tooth'', 5), (''Bone'', 2)] ''out'' ''dataset.json'' 0)) 5)"
    by blast
  from inst d have bij: "bij_betw
        (\<lambda>k. the (map_of (snd (remap_label_ids_from_json
          (\<lambda>d. [] :: (string \<times> (unit, unit) content) list)
          [(''Tooth'', 5), (''Bone'', 2)] ''out'' ''dataset.json'' 0)) k))
        (snd ` set [(''Tooth'', 5 :: int), (''Bone'', 2)])
        {0..<int (card (snd ` set [(''Tooth'', 5 :: int), (''Bone'', 2)]))}"
    by blast
  from d i2 i5 lt mono bij show ?thesis by blast
qed


section \<open>Properties of the Volume Relabeler\<close>

lemma read_file_write_file:
  "read_file (write_file fs d fname c) d' fname' =
     (if d' = d \<and> fname' = fname then Some c else read_file fs d' fname')"
  by (simp add: read_file_def write_file_def update_conv')




text \<open>A new ID that does not fit the voxel type raises, whatever the voxels are.\<close>

lemma remap_loop_overflow:
  "\<exists>(old_id, new_id)\<in>set id_mapping. \<not> (0 \<le> new_id \<and> new_id < 65536) \<Longrightarrow>
   remap_loop data r id_mapping = Inl OverflowError"
proof (induction id_mapping arbitrary: r)
  case Nil
  then show ?case by simp
next
  case (Cons kv rest)
  obtain old new where kv: "kv = (old, new)" by (cases kv)
  show ?case
  proof (cases "0 \<le> new \<and> new < 65536")
    case True
    with Cons.prems have "\<exists>(old_id, new_id)\<in>set rest. \<not> (0 \<le> new_id \<and> new_id < 65536)"
      by (auto simp: kv)
    from Cons.IH [OF this] True show ?thesis
      by (simp add: kv masked_assign_def)
  next
    case False
    then show ?thesis by (auto simp add: kv masked_assign_def)
  qed
qed














section \<open>Properties of the Pair Splitter\<close>

lemma group_fold:
  "fold (\<lambda>fname grouped.
             if nii_gz fname then
               (case first_prefix prefixes fname of
                  None \<Rightarrow> grouped
                | Some prefix \<Rightarrow> grouped(prefix := grouped prefix @ [fname]))
             else grouped) xs g p
   = g p @ filter (\<lambda>fname. nii_gz fname \<and> first_prefix prefixes fname = Some p) xs"
  by (induction xs arbitrary: g) (auto split: option.splits)

lemma collect_image_files_by_prefix_eq [code]:
  "collect_image_files_by_prefix fs images_dir prefixes p =
     filter (\<lambda>fname. nii_gz fname \<and> first_prefix prefixes fname = Some p) (listdir fs images_dir)"
  by (simp add: collect_image_files_by_prefix_def group_fold)

lemma collect_matched_take:
  "1 \<le> cap \<Longrightarrow> int (length acc) < cap \<Longrightarrow>
   collect_matched label_set cap xs acc =
     acc @ take (nat cap - length acc)
             (map (\<lambda>fname. (fname, strip_image_id fname @ ''.nii.gz''))
                  (filter (\<lambda>fname. strip_image_id fname \<in> label_set) xs))"
proof (induction xs arbitrary: acc)
  case Nil
  then show ?case by simp
next
  case (Cons fname rest)
  show ?case
  proof (cases "strip_image_id fname \<in> label_set")
    case False
    with Cons show ?thesis by (simp add: Let_def)
  next
    case True
    let ?acc' = "acc @ [(fname, strip_image_id fname @ ''.nii.gz'')]"
    from Cons.prems obtain k where k: "nat cap - length acc = Suc k"
      by (cases "nat cap - length acc") auto
    show ?thesis
    proof (cases "cap \<le> int (length ?acc')")
      case full: True
      with Cons.prems k have "k = 0" by auto
      with full True k show ?thesis by (simp add: Let_def)
    next
      case notfull: False
      then have lt: "int (length ?acc') < cap" by simp
      have k': "nat cap - length ?acc' = k" using k by simp
      from Cons.IH [OF Cons.prems(1) lt] notfull True k k'
      show ?thesis by (simp add: Let_def)
    qed
  qed
qed

lemma matched_pairs_take:
  "1 \<le> cap \<Longrightarrow>
   matched_pairs image_groups label_set cap prefix =
     take (nat cap)
       (map (\<lambda>fname. (fname, strip_image_id fname @ ''.nii.gz''))
            (filter (\<lambda>fname. strip_image_id fname \<in> label_set) (rev (sort (image_groups prefix)))))"
  by (simp add: matched_pairs_def collect_matched_take)

lemma length_filter_rev_sort:
  "length (filter P (rev (sort xs))) = length (filter P xs)"
proof -
  have ins: "length (filter P (insort x ys)) = length (filter P (x # ys))" for x ys
    by (induction ys) auto
  have "length (filter P (sort xs)) = length (filter P xs)"
    by (induction xs) (simp_all add: ins)
  moreover have "length (filter P (rev ys)) = length (filter P ys)" for ys
    by (simp flip: rev_filter)
  ultimately show ?thesis by simp
qed

lemma matched_pairs_length:
  assumes "1 \<le> cap"
  shows "int (length (matched_pairs image_groups label_set cap prefix)) =
     min cap (int (length (filter (\<lambda>fname. strip_image_id fname \<in> label_set) (image_groups prefix))))"
proof -
  let ?n = "length (filter (\<lambda>fname. strip_image_id fname \<in> label_set) (image_groups prefix))"
  have "length (matched_pairs image_groups label_set cap prefix) = min (nat cap) ?n"
    using assms by (simp add: matched_pairs_take length_filter_rev_sort)
  with assms show ?thesis by linarith
qed

text \<open>With a cap of 0 or less the loop stops after the first name, which it has already
  appended when it matches.\<close>

lemma collect_matched_nonpositive:
  "cap \<le> 0 \<Longrightarrow> collect_matched label_set cap xs [] =
     (case xs of [] \<Rightarrow> []
      | fname # rest \<Rightarrow> if strip_image_id fname \<in> label_set
                         then [(fname, strip_image_id fname @ ''.nii.gz'')] else [])"
  by (cases xs) (auto simp: Let_def)

lemma read_file_remove_file:
  "read_file (remove_file fs d fname) d' fname' =
     (if d' = d \<and> fname' = fname then None else read_file fs d' fname')"
  by (simp add: read_file_def remove_file_def delete_conv')

lemma listdir_read_file: "fname \<in> set (listdir fs d) \<longleftrightarrow> read_file fs d fname \<noteq> None"
  by (simp add: listdir_def read_file_def map_of_eq_None_iff)

lemma shutil_move_Inr:
  assumes "shutil_move fs sd sn dd dn = Inr fs'"
  shows "read_file fs sd sn \<noteq> None"
    and "read_file fs' d f =
      (if d = dd \<and> f = dn then read_file fs sd sn
       else if d = sd \<and> f = sn then None else read_file fs d f)"
  using assms
  by (auto simp: shutil_move_def read_file_write_file read_file_remove_file split: option.splits)

lemma shutil_move_succeeds:
  "read_file fs sd sn \<noteq> None \<Longrightarrow> \<exists>fs'. shutil_move fs sd sn dd dn = Inr fs'"
  by (auto simp: shutil_move_def)

lemma move_pairs_append:
  "move_pairs fs I L OI OL (ps @ qs) =
     (case move_pairs fs I L OI OL ps of Inl e \<Rightarrow> Inl e | Inr fs1 \<Rightarrow> move_pairs fs1 I L OI OL qs)"
  by (induction ps arbitrary: fs) (auto split: sum.splits)

lemma move_prefixes_concat:
  "move_prefixes fs I L OI OL image_groups label_set cap prefixes =
     move_pairs fs I L OI OL (concat (map (matched_pairs image_groups label_set cap) prefixes))"
  by (induction prefixes arbitrary: fs) (auto simp: move_pairs_append split: sum.splits)

lemma move_pairs_effect:
  assumes "move_pairs fs I L OI OL ps = Inr fs'"
    and "I \<noteq> L" "I \<noteq> OI" "I \<noteq> OL" "L \<noteq> OI" "L \<noteq> OL" "OI \<noteq> OL"
  shows "(\<forall>f. read_file fs' I f = (if f \<in> fst ` set ps then None else read_file fs I f))
    \<and> (\<forall>f. read_file fs' OI f = (if f \<in> fst ` set ps then read_file fs I f else read_file fs OI f))
    \<and> (\<forall>f. read_file fs' L f = (if f \<in> snd ` set ps then None else read_file fs L f))
    \<and> (\<forall>f. read_file fs' OL f = (if f \<in> snd ` set ps then read_file fs L f else read_file fs OL f))
    \<and> (\<forall>d f. d \<noteq> I \<and> d \<noteq> L \<and> d \<noteq> OI \<and> d \<noteq> OL \<longrightarrow> read_file fs' d f = read_file fs d f)
    \<and> distinct (map fst ps) \<and> distinct (map snd ps)
    \<and> (\<forall>f\<in>fst ` set ps. read_file fs I f \<noteq> None)
    \<and> (\<forall>f\<in>snd ` set ps. read_file fs L f \<noteq> None)"
  using assms(1)
proof (induction ps arbitrary: fs)
  case Nil
  then show ?case by simp
next
  case (Cons p rest)
  obtain i l where p: "p = (i, l)" by (cases p)
  from Cons.prems obtain fs1 fs2 where
    m1: "shutil_move fs I i OI i = Inr fs1"
    and m2: "shutil_move fs1 L l OL l = Inr fs2"
    and m3: "move_pairs fs2 I L OI OL rest = Inr fs'"
    by (auto simp: p split: sum.splits)
  note e1 = shutil_move_Inr [OF m1] and e2 = shutil_move_Inr [OF m2]
  note IH = Cons.IH [OF m3]
  have r2: "read_file fs2 d f =
      (if d = OL \<and> f = l then read_file fs L l
       else if d = L \<and> f = l then None
       else if d = OI \<and> f = i then read_file fs I i
       else if d = I \<and> f = i then None else read_file fs d f)" for d f
    using assms(2-) by (simp add: e1(2) e2(2))
  have ex_i: "read_file fs I i \<noteq> None" using e1(1) .
  have ex_l: "read_file fs L l \<noteq> None" using e2(1) assms(2-) by (simp add: e1(2))
  from IH have nI: "\<forall>f\<in>fst ` set rest. read_file fs2 I f \<noteq> None"
    and nL: "\<forall>f\<in>snd ` set rest. read_file fs2 L f \<noteq> None" by blast+
  have i_notin: "i \<notin> fst ` set rest"
    using nI assms(2-) by (auto simp: r2)
  have l_notin: "l \<notin> snd ` set rest"
    using nL assms(2-) by (auto simp: r2)
  have c1: "\<forall>f. read_file fs' I f = (if f \<in> fst ` set (p # rest) then None else read_file fs I f)"
    using IH assms(2-) by (simp add: r2 p)
  have c2: "\<forall>f. read_file fs' OI f =
      (if f \<in> fst ` set (p # rest) then read_file fs I f else read_file fs OI f)"
    using IH assms(2-) i_notin by (auto simp add: r2 p)
  have c3: "\<forall>f. read_file fs' L f = (if f \<in> snd ` set (p # rest) then None else read_file fs L f)"
    using IH assms(2-) by (simp add: r2 p)
  have c4: "\<forall>f. read_file fs' OL f =
      (if f \<in> snd ` set (p # rest) then read_file fs L f else read_file fs OL f)"
    using IH assms(2-) l_notin by (auto simp add: r2 p)
  have c5: "\<forall>d f. d \<noteq> I \<and> d \<noteq> L \<and> d \<noteq> OI \<and> d \<noteq> OL \<longrightarrow> read_file fs' d f = read_file fs d f"
    using IH by (simp add: r2)
  have c6: "distinct (map fst (p # rest))" "distinct (map snd (p # rest))"
    using IH i_notin l_notin by (simp_all add: p)
  have c7: "\<forall>f\<in>fst ` set (p # rest). read_file fs I f \<noteq> None"
    using nI ex_i assms(2-) by (auto simp: r2 p split: if_splits)
  have c8: "\<forall>f\<in>snd ` set (p # rest). read_file fs L f \<noteq> None"
    using nL ex_l assms(2-) by (auto simp: r2 p split: if_splits)
  from c1 c2 c3 c4 c5 c6 c7 c8 show ?case by blast
qed

lemma move_pairs_effectD:
  assumes "move_pairs fs I L OI OL ps = Inr fs'"
    and "I \<noteq> L" "I \<noteq> OI" "I \<noteq> OL" "L \<noteq> OI" "L \<noteq> OL" "OI \<noteq> OL"
  shows "read_file fs' I f = (if f \<in> fst ` set ps then None else read_file fs I f)"
    and "read_file fs' OI f = (if f \<in> fst ` set ps then read_file fs I f else read_file fs OI f)"
    and "read_file fs' L f = (if f \<in> snd ` set ps then None else read_file fs L f)"
    and "read_file fs' OL f = (if f \<in> snd ` set ps then read_file fs L f else read_file fs OL f)"
    and "d \<noteq> I \<Longrightarrow> d \<noteq> L \<Longrightarrow> d \<noteq> OI \<Longrightarrow> d \<noteq> OL \<Longrightarrow> read_file fs' d f = read_file fs d f"
    and "distinct (map fst ps)" and "distinct (map snd ps)"
    and "f \<in> fst ` set ps \<Longrightarrow> read_file fs I f \<noteq> None"
    and "f \<in> snd ` set ps \<Longrightarrow> read_file fs L f \<noteq> None"
proof -
  note e = move_pairs_effect [OF assms]
  from e show "read_file fs' I f = (if f \<in> fst ` set ps then None else read_file fs I f)"
    by (elim conjE) (erule allE [of _ f])
  from e show "read_file fs' OI f = (if f \<in> fst ` set ps then read_file fs I f else read_file fs OI f)"
    by (elim conjE) (erule allE [of "\<lambda>f. read_file fs' OI f = _ f" f])
  from e show "read_file fs' L f = (if f \<in> snd ` set ps then None else read_file fs L f)"
    by (elim conjE) (erule allE [of "\<lambda>f. read_file fs' L f = _ f" f])
  from e show "read_file fs' OL f = (if f \<in> snd ` set ps then read_file fs L f else read_file fs OL f)"
    by (elim conjE) (erule allE [of "\<lambda>f. read_file fs' OL f = _ f" f])
  from e have "\<forall>d f. d \<noteq> I \<and> d \<noteq> L \<and> d \<noteq> OI \<and> d \<noteq> OL \<longrightarrow> read_file fs' d f = read_file fs d f"
    by (elim conjE)
  then show "d \<noteq> I \<Longrightarrow> d \<noteq> L \<Longrightarrow> d \<noteq> OI \<Longrightarrow> d \<noteq> OL \<Longrightarrow> read_file fs' d f = read_file fs d f"
    by simp
  from e show "distinct (map fst ps)" by (elim conjE)
  from e show "distinct (map snd ps)" by (elim conjE)
  from e have "\<forall>f\<in>fst ` set ps. read_file fs I f \<noteq> None" by (elim conjE)
  then show "f \<in> fst ` set ps \<Longrightarrow> read_file fs I f \<noteq> None" by (rule bspec)
  from e have "\<forall>f\<in>snd ` set ps. read_file fs L f \<noteq> None" by (elim conjE)
  then show "f \<in> snd ` set ps \<Longrightarrow> read_file fs L f \<noteq> None" by (rule bspec)
qed

lemma move_pairs_succeeds:
  assumes "I \<noteq> L" "I \<noteq> OI" "I \<noteq> OL" "L \<noteq> OI" "L \<noteq> OL" "OI \<noteq> OL"
  shows "distinct (map fst ps) \<Longrightarrow> distinct (map snd ps) \<Longrightarrow>
    \<forall>f\<in>fst ` set ps. read_file fs I f \<noteq> None \<Longrightarrow>
    \<forall>f\<in>snd ` set ps. read_file fs L f \<noteq> None \<Longrightarrow>
    \<exists>fs'. move_pairs fs I L OI OL ps = Inr fs'"
proof (induction ps arbitrary: fs)
  case Nil
  then show ?case by simp
next
  case (Cons p rest)
  obtain i l where p: "p = (i, l)" by (cases p)
  from Cons.prems(3) have "read_file fs I i \<noteq> None" by (simp add: p)
  from shutil_move_succeeds [OF this] obtain fs1 where
    m1: "shutil_move fs I i OI i = Inr fs1" by blast
  note e1 = shutil_move_Inr [OF m1]
  from Cons.prems(4) assms have "read_file fs1 L l \<noteq> None" by (simp add: p e1(2))
  from shutil_move_succeeds [OF this] obtain fs2 where
    m2: "shutil_move fs1 L l OL l = Inr fs2" by blast
  note e2 = shutil_move_Inr [OF m2]
  have r2: "read_file fs2 d f =
      (if d = OL \<and> f = l then read_file fs L l
       else if d = L \<and> f = l then None
       else if d = OI \<and> f = i then read_file fs I i
       else if d = I \<and> f = i then None else read_file fs d f)" for d f
    using assms by (simp add: e1(2) e2(2))
  have "\<forall>f\<in>fst ` set rest. read_file fs2 I f \<noteq> None"
    using Cons.prems(1,3) assms by (auto simp: r2 p)
  moreover have "\<forall>f\<in>snd ` set rest. read_file fs2 L f \<noteq> None"
    using Cons.prems(2,4) assms by (auto simp: r2 p)
  moreover have "distinct (map fst rest)" "distinct (map snd rest)"
    using Cons.prems(1,2) by simp_all
  ultimately obtain fs' where "move_pairs fs2 I L OI OL rest = Inr fs'"
    using Cons.IH by blast
  with m1 m2 show ?case by (simp add: p)
qed

lemma filter_update_other:
  "\<not> P (k, v) \<Longrightarrow> (\<And>v'. \<not> P (k, v')) \<Longrightarrow> filter P (AList.update k v al) = filter P al"
  by (induction al) auto

lemma filter_delete_other:
  "(\<And>v'. \<not> P (k, v')) \<Longrightarrow> filter P (AList.delete k al) = filter P al"
  by (induction al) auto

lemma other_entries_write_file:
  "nii_gz fname \<Longrightarrow> other_entries (write_file fs d fname c) d' = other_entries fs d'"
  by (simp add: other_entries_def write_file_def filter_update_other)

lemma other_entries_remove_file:
  "nii_gz fname \<Longrightarrow> other_entries (remove_file fs d fname) d' = other_entries fs d'"
  by (simp add: other_entries_def remove_file_def filter_delete_other)

lemma other_entries_shutil_move:
  "shutil_move fs sd sn dd dn = Inr fs' \<Longrightarrow> nii_gz sn \<Longrightarrow> nii_gz dn \<Longrightarrow>
   other_entries fs' d = other_entries fs d"
  by (auto simp: shutil_move_def other_entries_write_file other_entries_remove_file
      split: option.splits)

lemma other_entries_move_pairs:
  "move_pairs fs I L OI OL ps = Inr fs' \<Longrightarrow> \<forall>(i, l)\<in>set ps. nii_gz i \<and> nii_gz l \<Longrightarrow>
   other_entries fs' d = other_entries fs d"
proof (induction ps arbitrary: fs)
  case Nil
  then show ?case by simp
next
  case (Cons p rest)
  obtain i l where p: "p = (i, l)" by (cases p)
  from Cons.prems obtain fs1 fs2 where
    m1: "shutil_move fs I i OI i = Inr fs1"
    and m2: "shutil_move fs1 L l OL l = Inr fs2"
    and m3: "move_pairs fs2 I L OI OL rest = Inr fs'"
    by (auto simp: p split: sum.splits)
  from Cons.prems(2) have nii: "nii_gz i" "nii_gz l" by (simp_all add: p)
  from Cons.prems(2) have "\<forall>(i, l)\<in>set rest. nii_gz i \<and> nii_gz l" by simp
  from Cons.IH [OF m3 this] other_entries_shutil_move [OF m1 nii(1) nii(1)]
    other_entries_shutil_move [OF m2 nii(2) nii(2)]
  show ?case by simp
qed

lemma nii_gz_append: "nii_gz (b @ ''.nii.gz'')"
  by (simp add: nii_gz_def endswith_def)

lemma collect_matched_subset:
  "set (collect_matched label_set cap xs acc) \<subseteq>
     set acc \<union> (\<lambda>fname. (fname, strip_image_id fname @ ''.nii.gz'')) ` set xs"
proof (induction xs arbitrary: acc)
  case Nil
  then show ?case by simp
next
  case (Cons fname rest)
  let ?p = "(fname, strip_image_id fname @ ''.nii.gz'')"
  have a: "set (collect_matched label_set cap rest acc) \<subseteq>
     set acc \<union> (\<lambda>fname. (fname, strip_image_id fname @ ''.nii.gz'')) ` set (fname # rest)"
    using Cons.IH [of acc] by auto
  have b: "set (collect_matched label_set cap rest (acc @ [?p])) \<subseteq>
     set acc \<union> (\<lambda>fname. (fname, strip_image_id fname @ ''.nii.gz'')) ` set (fname # rest)"
    using Cons.IH [of "acc @ [?p]"] by auto
  show ?case
    using a b by (auto simp add: Let_def)
qed

lemma matched_pairs_subset:
  "set (matched_pairs image_groups label_set cap prefix) \<subseteq>
     (\<lambda>fname. (fname, strip_image_id fname @ ''.nii.gz'')) ` set (image_groups prefix)"
  using collect_matched_subset [of label_set cap "rev (sort (image_groups prefix))" "[]"]
  by (simp add: matched_pairs_def)

lemma matched_pairs_nii_gz:
  assumes "(i, l) \<in> set (matched_pairs (collect_image_files_by_prefix fs images_dir prefixes)
                            label_set cap prefix)"
  shows "nii_gz i \<and> nii_gz l \<and> i \<in> set (listdir fs images_dir)
         \<and> first_prefix prefixes i = Some prefix \<and> l = strip_image_id i @ ''.nii.gz''"
  using assms matched_pairs_subset [of "collect_image_files_by_prefix fs images_dir prefixes" label_set cap prefix]
  by (auto simp: collect_image_files_by_prefix_eq nii_gz_append)

lemma move_matched_pairs_concat:
  "move_matched_pairs fs I L OI OL prefixes cap =
     move_pairs fs I L OI OL
       (concat (map (matched_pairs (collect_image_files_by_prefix fs I prefixes)
                                   (collect_label_set fs L) cap) prefixes))"
  by (simp add: move_matched_pairs_def move_prefixes_concat)

lemma group_member:
  "fname \<in> set (collect_image_files_by_prefix fs images_dir prefixes p) \<longleftrightarrow>
     fname \<in> set (listdir fs images_dir) \<and> nii_gz fname \<and> first_prefix prefixes fname = Some p"
  by (auto simp: collect_image_files_by_prefix_eq)

lemma in_all_matched_iff:
  assumes "fname \<in> set (collect_image_files_by_prefix fs I prefixes prefix)"
    and "prefix \<in> set prefixes"
  shows "fname \<in> fst ` set (concat (map (matched_pairs (collect_image_files_by_prefix fs I prefixes)
                                   label_set cap) prefixes))
     \<longleftrightarrow> fname \<in> fst ` set (matched_pairs (collect_image_files_by_prefix fs I prefixes)
                                   label_set cap prefix)"
proof
  assume "fname \<in> fst ` set (concat (map (matched_pairs (collect_image_files_by_prefix fs I prefixes)
                                   label_set cap) prefixes))"
  then obtain q l where q: "q \<in> set prefixes"
    and m: "(fname, l) \<in> set (matched_pairs (collect_image_files_by_prefix fs I prefixes) label_set cap q)"
    by auto
  from matched_pairs_nii_gz [OF m] have "first_prefix prefixes fname = Some q" by simp
  moreover from assms(1) have "first_prefix prefixes fname = Some prefix"
    by (simp add: group_member)
  ultimately have "q = prefix" by simp
  with m show "fname \<in> fst ` set (matched_pairs (collect_image_files_by_prefix fs I prefixes)
                                   label_set cap prefix)"
    by force
next
  assume "fname \<in> fst ` set (matched_pairs (collect_image_files_by_prefix fs I prefixes)
                                   label_set cap prefix)"
  with assms(2) show "fname \<in> fst ` set (concat (map (matched_pairs (collect_image_files_by_prefix fs I prefixes)
                                   label_set cap) prefixes))"
    by auto
qed

lemma distinct_map_concat_part:
  "distinct (map f (concat xss)) \<Longrightarrow> xs \<in> set xss \<Longrightarrow> distinct (map f xs)"
  by (induction xss) auto

lemma sort_filter_listing_eq:
  fixes xs ys :: "string list"
  assumes "distinct xs" "distinct ys" "set xs = set ys"
  shows "sort (filter P xs) = sort (filter P ys)"
proof (rule sorted_distinct_set_unique)
  show "sorted (sort (filter P xs))" "sorted (sort (filter P ys))" by simp_all
  show "distinct (sort (filter P xs))" "distinct (sort (filter P ys))"
    using assms by simp_all
  show "set (sort (filter P xs)) = set (sort (filter P ys))"
    using assms by simp
qed

lemma collect_label_set_eq:
  "set (listdir fs1 labels_dir) = set (listdir fs2 labels_dir) \<Longrightarrow>
   collect_label_set fs1 labels_dir = collect_label_set fs2 labels_dir"
  by (simp add: collect_label_set_def)

lemma matched_pairs_listing_eq:
  assumes "distinct (listdir fs1 images_dir)" "distinct (listdir fs2 images_dir)"
    and "set (listdir fs1 images_dir) = set (listdir fs2 images_dir)"
    and "set (listdir fs1 labels_dir) = set (listdir fs2 labels_dir)"
  shows "matched_pairs (collect_image_files_by_prefix fs1 images_dir prefixes)
            (collect_label_set fs1 labels_dir) cap prefix
       = matched_pairs (collect_image_files_by_prefix fs2 images_dir prefixes)
            (collect_label_set fs2 labels_dir) cap prefix"
  unfolding matched_pairs_def collect_image_files_by_prefix_eq
  using sort_filter_listing_eq [OF assms(1-3)] collect_label_set_eq [OF assms(4)]
  by simp

lemma listdir_after_moves:
  assumes "move_pairs fs I L OI OL ps = Inr fs'"
    and "I \<noteq> L" "I \<noteq> OI" "I \<noteq> OL" "L \<noteq> OI" "L \<noteq> OL" "OI \<noteq> OL"
  shows "set (listdir fs' I) = set (listdir fs I) - fst ` set ps"
    and "set (listdir fs' L) = set (listdir fs L) - snd ` set ps"
    and "set (listdir fs' OI) = set (listdir fs OI) \<union> fst ` set ps"
    and "set (listdir fs' OL) = set (listdir fs OL) \<union> snd ` set ps"
proof -
  note eff = move_pairs_effectD [OF assms]
  show "set (listdir fs' I) = set (listdir fs I) - fst ` set ps"
    by (rule set_eqI) (simp add: listdir_read_file eff(1))
  show "set (listdir fs' L) = set (listdir fs L) - snd ` set ps"
    by (rule set_eqI) (simp add: listdir_read_file eff(3))
  show "set (listdir fs' OI) = set (listdir fs OI) \<union> fst ` set ps"
  proof (rule set_eqI)
    fix f show "f \<in> set (listdir fs' OI) \<longleftrightarrow> f \<in> set (listdir fs OI) \<union> fst ` set ps"
      using eff(8) [of f] by (simp add: listdir_read_file eff(2))
  qed
  show "set (listdir fs' OL) = set (listdir fs OL) \<union> snd ` set ps"
  proof (rule set_eqI)
    fix f show "f \<in> set (listdir fs' OL) \<longleftrightarrow> f \<in> set (listdir fs OL) \<union> snd ` set ps"
      using eff(9) [of f] by (simp add: listdir_read_file eff(4))
  qed
qed

lemma move_pairs_success_transfer:
  assumes "move_pairs fs1 I L OI OL ps = Inr fs1'"
    and "I \<noteq> L" "I \<noteq> OI" "I \<noteq> OL" "L \<noteq> OI" "L \<noteq> OL" "OI \<noteq> OL"
    and "set (listdir fs1 I) = set (listdir fs2 I)"
    and "set (listdir fs1 L) = set (listdir fs2 L)"
  shows "\<exists>fs2'. move_pairs fs2 I L OI OL ps = Inr fs2'"
proof -
  note eff = move_pairs_effectD [OF assms(1-7)]
  have "\<forall>f\<in>fst ` set ps. read_file fs2 I f \<noteq> None"
  proof
    fix f assume "f \<in> fst ` set ps"
    from eff(8) [OF this] have "f \<in> set (listdir fs1 I)" by (simp add: listdir_read_file)
    with assms(8) show "read_file fs2 I f \<noteq> None" by (simp add: listdir_read_file)
  qed
  moreover have "\<forall>f\<in>snd ` set ps. read_file fs2 L f \<noteq> None"
  proof
    fix f assume "f \<in> snd ` set ps"
    from eff(9) [OF this] have "f \<in> set (listdir fs1 L)" by (simp add: listdir_read_file)
    with assms(9) show "read_file fs2 L f \<noteq> None" by (simp add: listdir_read_file)
  qed
  ultimately show ?thesis
    using move_pairs_succeeds [OF assms(2-7) eff(6) eff(7)] by blast
qed

text \<open>
  C5. The spec states that for every cap at most \<open>cap\<close> pairs are moved for a prefix. The
  loop that fills \<open>matched\<close> tests \<open>len(matched) >= max_per_prefix\<close> after the append, not
  before it: with \<open>max_per_prefix = 0\<close> the first image in reverse order that has a label
  is appended, and one pair is moved where none should be.
\<close>

theorem cap_zero_moves_one_pair:
  "\<not> isl (move_matched_pairs example_split_fs ''imagesTr'' ''labelsTr'' ''imagesVal'' ''labelsVal''
            [''ToothFairy3F''] 0)
   \<and> listdir (projr (move_matched_pairs example_split_fs ''imagesTr'' ''labelsTr'' ''imagesVal''
            ''labelsVal'' [''ToothFairy3F''] 0)) ''imagesVal'' = [''ToothFairy3F_002_0000.nii.gz'']
   \<and> listdir (projr (move_matched_pairs example_split_fs ''imagesTr'' ''labelsTr'' ''imagesVal''
            ''labelsVal'' [''ToothFairy3F''] 0)) ''labelsVal'' = [''ToothFairy3F_002.nii.gz'']
   \<and> \<not> int (length (matched_pairs
            (collect_image_files_by_prefix example_split_fs ''imagesTr'' [''ToothFairy3F''])
            (collect_label_set example_split_fs ''labelsTr'') 0 ''ToothFairy3F'')) \<le> 0"
  by code_simp

text \<open>
  The second way the split misses the cap. The label is looked up by case identifier, so two
  channel images of one case are both selected, with the same label file; the label is moved
  with the first image and the move for the second raises. With the cap 17 of the pipeline
  and eighteen images that all have their label present, seventeen pairs are selected and
  the split stops with an error instead of moving them.
\<close>

lemma shared_case_identifier_stops_the_split:
  "length (filter (\<lambda>fname. strip_image_id fname \<in> collect_label_set example_two_channel_fs ''labelsTr'')
       (collect_image_files_by_prefix example_two_channel_fs ''imagesTr'' prefixes_main
          ''ToothFairy3F'')) = 18
   \<and> length (matched_pairs
       (collect_image_files_by_prefix example_two_channel_fs ''imagesTr'' prefixes_main)
       (collect_label_set example_two_channel_fs ''labelsTr'') 17 ''ToothFairy3F'') = 17
   \<and> (case move_matched_pairs example_two_channel_fs ''imagesTr'' ''labelsTr'' ''imagesVal''
          ''labelsVal'' prefixes_main 17 of
        Inl e \<Rightarrow> e = FileNotFoundError
      | Inr fs' \<Rightarrow> False)"
  by code_simp

text \<open>
  What the loop does for a cap of at least 1: it selects at most \<open>cap\<close> pairs for the
  prefix, exactly \<open>cap\<close> when at least \<open>cap\<close> images of the prefix have their case
  identifier in the label set, and all of them otherwise; when the run completes (the four
  directories being different ones), the images of the prefix that have left the training
  directory for the validation directory are exactly the selected ones, and the label file
  of every selected pair has moved with it.
\<close>

theorem splitter_selects_and_moves_up_to_cap:
  fixes fs :: "('a, 'h) filesystem"
    and images_dir labels_dir output_images_dir output_labels_dir prefix :: string
    and prefixes :: "string list"
    and max_per_prefix :: int
  defines "image_groups \<equiv> collect_image_files_by_prefix fs images_dir prefixes"
    and "label_set \<equiv> collect_label_set fs labels_dir"
  defines "matched \<equiv> matched_pairs image_groups label_set max_per_prefix prefix"
    and "candidates \<equiv> filter (\<lambda>fname. strip_image_id fname \<in> label_set) (image_groups prefix)"
  assumes cap: "1 \<le> max_per_prefix"
  shows "int (length matched) \<le> max_per_prefix
     \<and> (max_per_prefix \<le> int (length candidates) \<longrightarrow> int (length matched) = max_per_prefix)
     \<and> (int (length candidates) \<le> max_per_prefix \<longrightarrow> length matched = length candidates)
     \<and> (\<forall>fs'. prefix \<in> set prefixes
            \<and> distinct [images_dir, labels_dir, output_images_dir, output_labels_dir]
            \<and> move_matched_pairs fs images_dir labels_dir output_images_dir output_labels_dir
                  prefixes max_per_prefix = Inr fs'
          \<longrightarrow> distinct (map fst matched)
            \<and> (\<forall>fname\<in>set (image_groups prefix).
                  if fname \<in> fst ` set matched
                  then read_file fs' images_dir fname = None
                     \<and> read_file fs' output_images_dir fname = read_file fs images_dir fname
                  else read_file fs' images_dir fname = read_file fs images_dir fname)
            \<and> (\<forall>(image_fname, label_fname)\<in>set matched.
                  read_file fs' labels_dir label_fname = None
                  \<and> read_file fs' output_labels_dir label_fname = read_file fs labels_dir label_fname))"
proof -
  have len: "int (length matched) = min max_per_prefix (int (length candidates))"
    unfolding matched_def candidates_def using cap by (rule matched_pairs_length)
  have moved: "distinct (map fst matched)
            \<and> (\<forall>fname\<in>set (image_groups prefix).
                  if fname \<in> fst ` set matched
                  then read_file fs' images_dir fname = None
                     \<and> read_file fs' output_images_dir fname = read_file fs images_dir fname
                  else read_file fs' images_dir fname = read_file fs images_dir fname)
            \<and> (\<forall>(image_fname, label_fname)\<in>set matched.
                  read_file fs' labels_dir label_fname = None
                  \<and> read_file fs' output_labels_dir label_fname = read_file fs labels_dir label_fname)"
    if pre: "prefix \<in> set prefixes"
      and dirs: "distinct [images_dir, labels_dir, output_images_dir, output_labels_dir]"
      and run: "move_matched_pairs fs images_dir labels_dir output_images_dir output_labels_dir
                  prefixes max_per_prefix = Inr fs'"
    for fs'
  proof -
    let ?all = "concat (map (matched_pairs image_groups label_set max_per_prefix) prefixes)"
    from run have mv: "move_pairs fs images_dir labels_dir output_images_dir output_labels_dir ?all = Inr fs'"
      by (simp add: move_matched_pairs_concat image_groups_def label_set_def)
    from dirs have d: "images_dir \<noteq> labels_dir" "images_dir \<noteq> output_images_dir"
      "images_dir \<noteq> output_labels_dir" "labels_dir \<noteq> output_images_dir"
      "labels_dir \<noteq> output_labels_dir" "output_images_dir \<noteq> output_labels_dir" by auto
    note eff = move_pairs_effectD [OF mv d]
    from pre have part: "matched \<in> set (map (matched_pairs image_groups label_set max_per_prefix) prefixes)"
      by (auto simp: matched_def)
    from distinct_map_concat_part [OF eff(6) part] have c1: "distinct (map fst matched)" .
    have c2: "\<forall>fname\<in>set (image_groups prefix).
                  if fname \<in> fst ` set matched
                  then read_file fs' images_dir fname = None
                     \<and> read_file fs' output_images_dir fname = read_file fs images_dir fname
                  else read_file fs' images_dir fname = read_file fs images_dir fname"
    proof
      fix fname assume g: "fname \<in> set (image_groups prefix)"
      from in_all_matched_iff [OF g [unfolded image_groups_def] pre, of label_set max_per_prefix]
      have iff: "fname \<in> fst ` set ?all \<longleftrightarrow> fname \<in> fst ` set matched"
        by (simp add: matched_def image_groups_def)
      have "read_file fs' images_dir fname =
          (if fname \<in> fst ` set matched then None else read_file fs images_dir fname)"
        using eff(1) [of fname] by (simp only: iff)
      moreover have "read_file fs' output_images_dir fname =
          (if fname \<in> fst ` set matched then read_file fs images_dir fname
           else read_file fs output_images_dir fname)"
        using eff(2) [of fname] by (simp only: iff)
      ultimately show "if fname \<in> fst ` set matched
                  then read_file fs' images_dir fname = None
                     \<and> read_file fs' output_images_dir fname = read_file fs images_dir fname
                  else read_file fs' images_dir fname = read_file fs images_dir fname"
        by simp
    qed
    have c3: "\<forall>(image_fname, label_fname)\<in>set matched.
                  read_file fs' labels_dir label_fname = None
                  \<and> read_file fs' output_labels_dir label_fname = read_file fs labels_dir label_fname"
    proof (clarify)
      fix i l assume il: "(i, l) \<in> set matched"
      with part have "l \<in> snd ` set ?all" by force
      then have "read_file fs' labels_dir l = None"
        and "read_file fs' output_labels_dir l = read_file fs labels_dir l"
        using eff(3) [of l] eff(4) [of l] by (simp_all only: if_True)
      then show "read_file fs' labels_dir l = None
                  \<and> read_file fs' output_labels_dir l = read_file fs labels_dir l"
        by simp
    qed
    from c1 c2 c3 show ?thesis by (intro conjI)
  qed
  from len have "int (length matched) \<le> max_per_prefix" by simp
  moreover from len have "max_per_prefix \<le> int (length candidates) \<longrightarrow> int (length matched) = max_per_prefix"
    by simp
  moreover from len have "int (length candidates) \<le> max_per_prefix \<longrightarrow> length matched = length candidates"
    by auto
  moreover have "\<forall>fs'. prefix \<in> set prefixes
            \<and> distinct [images_dir, labels_dir, output_images_dir, output_labels_dir]
            \<and> move_matched_pairs fs images_dir labels_dir output_images_dir output_labels_dir
                  prefixes max_per_prefix = Inr fs'
          \<longrightarrow> distinct (map fst matched)
            \<and> (\<forall>fname\<in>set (image_groups prefix).
                  if fname \<in> fst ` set matched
                  then read_file fs' images_dir fname = None
                     \<and> read_file fs' output_images_dir fname = read_file fs images_dir fname
                  else read_file fs' images_dir fname = read_file fs images_dir fname)
            \<and> (\<forall>(image_fname, label_fname)\<in>set matched.
                  read_file fs' labels_dir label_fname = None
                  \<and> read_file fs' output_labels_dir label_fname = read_file fs labels_dir label_fname)"
  proof (intro allI impI, elim conjE)
    fix fs'
    assume "prefix \<in> set prefixes"
      "distinct [images_dir, labels_dir, output_images_dir, output_labels_dir]"
      "move_matched_pairs fs images_dir labels_dir output_images_dir output_labels_dir
                  prefixes max_per_prefix = Inr fs'"
    then show "distinct (map fst matched)
            \<and> (\<forall>fname\<in>set (image_groups prefix).
                  if fname \<in> fst ` set matched
                  then read_file fs' images_dir fname = None
                     \<and> read_file fs' output_images_dir fname = read_file fs images_dir fname
                  else read_file fs' images_dir fname = read_file fs images_dir fname)
            \<and> (\<forall>(image_fname, label_fname)\<in>set matched.
                  read_file fs' labels_dir label_fname = None
                  \<and> read_file fs' output_labels_dir label_fname = read_file fs labels_dir label_fname)"
      by (rule moved)
  qed
  ultimately show ?thesis by (intro conjI)
qed

theorem splitter_selects_and_moves_up_to_cap_witness:
  "(1 :: int) \<le> 1
   \<and> int (length (matched_pairs
        (collect_image_files_by_prefix example_split_fs ''imagesTr'' [''ToothFairy3F''])
        (collect_label_set example_split_fs ''labelsTr'') 1 ''ToothFairy3F'')) = 1
   \<and> \<not> isl (move_matched_pairs example_split_fs ''imagesTr'' ''labelsTr'' ''imagesVal''
        ''labelsVal'' [''ToothFairy3F''] 1)
   \<and> read_file (projr (move_matched_pairs example_split_fs ''imagesTr'' ''labelsTr'' ''imagesVal''
        ''labelsVal'' [''ToothFairy3F''] 1)) ''imagesTr'' ''ToothFairy3F_002_0000.nii.gz'' = None
   \<and> read_file (projr (move_matched_pairs example_split_fs ''imagesTr'' ''labelsTr'' ''imagesVal''
        ''labelsVal'' [''ToothFairy3F''] 1)) ''imagesVal'' ''ToothFairy3F_002_0000.nii.gz''
       = Some (Other ''image 2'')
   \<and> read_file (projr (move_matched_pairs example_split_fs ''imagesTr'' ''labelsTr'' ''imagesVal''
        ''labelsVal'' [''ToothFairy3F''] 1)) ''imagesTr'' ''ToothFairy3F_001_0000.nii.gz''
       = Some (Other ''image 1'')"
proof -
  let ?fs = "example_split_fs"
  let ?ps = "[''ToothFairy3F'']"
  let ?groups = "collect_image_files_by_prefix ?fs ''imagesTr'' ?ps"
  let ?labels = "collect_label_set ?fs ''labelsTr''"
  let ?matched = "matched_pairs ?groups ?labels 1 ''ToothFairy3F''"
  let ?run = "move_matched_pairs ?fs ''imagesTr'' ''labelsTr'' ''imagesVal'' ''labelsVal'' ?ps 1"
  have cap: "(1 :: int) \<le> 1" by simp
  note inst = splitter_selects_and_moves_up_to_cap
    [OF cap, of ?fs "''imagesTr''" ?ps "''labelsTr''" "''ToothFairy3F''" "''imagesVal''" "''labelsVal''"]
  have enough: "1 \<le> int (length (filter (\<lambda>fname. strip_image_id fname \<in> ?labels)
                                     (?groups ''ToothFairy3F'')))"
    by code_simp
  from inst enough have len: "int (length ?matched) = 1" by blast
  have ok: "\<not> isl ?run" by code_simp
  then have run: "?run = Inr (projr ?run)" by simp
  have pre: "''ToothFairy3F'' \<in> set ?ps" by simp
  have dirs: "distinct [''imagesTr'', ''labelsTr'', ''imagesVal'', ''labelsVal'']" by simp
  from inst pre dirs run have moved:
    "\<forall>fname\<in>set (?groups ''ToothFairy3F'').
        if fname \<in> fst ` set ?matched
        then read_file (projr ?run) ''imagesTr'' fname = None
           \<and> read_file (projr ?run) ''imagesVal'' fname = read_file ?fs ''imagesTr'' fname
        else read_file (projr ?run) ''imagesTr'' fname = read_file ?fs ''imagesTr'' fname"
    by blast
  have g2: "''ToothFairy3F_002_0000.nii.gz'' \<in> set (?groups ''ToothFairy3F'')" by code_simp
  have g1: "''ToothFairy3F_001_0000.nii.gz'' \<in> set (?groups ''ToothFairy3F'')" by code_simp
  have s2: "''ToothFairy3F_002_0000.nii.gz'' \<in> fst ` set ?matched" by code_simp
  have s1: "''ToothFairy3F_001_0000.nii.gz'' \<notin> fst ` set ?matched" by code_simp
  have r2: "read_file ?fs ''imagesTr'' ''ToothFairy3F_002_0000.nii.gz'' = Some (Other ''image 2'')"
    by code_simp
  have r1: "read_file ?fs ''imagesTr'' ''ToothFairy3F_001_0000.nii.gz'' = Some (Other ''image 1'')"
    by code_simp
  from bspec [OF moved g2] s2 r2
  have m2: "read_file (projr ?run) ''imagesTr'' ''ToothFairy3F_002_0000.nii.gz'' = None"
    "read_file (projr ?run) ''imagesVal'' ''ToothFairy3F_002_0000.nii.gz'' = Some (Other ''image 2'')"
    by (simp_all only: if_True)
  from bspec [OF moved g1] s1 r1
  have m1: "read_file (projr ?run) ''imagesTr'' ''ToothFairy3F_001_0000.nii.gz'' = Some (Other ''image 1'')"
    by (simp only: if_False)
  from cap len ok m2 m1 show ?thesis by (intro conjI)
qed

text \<open>
  C7. Two runs on directories that hold the same image file names and the same label file
  names, listed in any order, select the same pairs for every prefix, in the same order;
  one run completes exactly when the other does, and then both have moved the same files:
  the same names remain in the training directories and the same names have been added to
  the validation directories.
\<close>

theorem split_independent_of_listing_order:
  fixes fs1 fs2 :: "('a, 'h) filesystem"
    and images_dir labels_dir output_images_dir output_labels_dir :: string
    and prefixes :: "string list"
    and max_per_prefix :: int
  defines "selected1 \<equiv> matched_pairs (collect_image_files_by_prefix fs1 images_dir prefixes)
            (collect_label_set fs1 labels_dir) max_per_prefix"
    and "selected2 \<equiv> matched_pairs (collect_image_files_by_prefix fs2 images_dir prefixes)
            (collect_label_set fs2 labels_dir) max_per_prefix"
  assumes d1: "distinct (listdir fs1 images_dir)" and d2: "distinct (listdir fs2 images_dir)"
    and imgs: "set (listdir fs1 images_dir) = set (listdir fs2 images_dir)"
    and labs: "set (listdir fs1 labels_dir) = set (listdir fs2 labels_dir)"
  shows "selected1 prefix = selected2 prefix
     \<and> (distinct [images_dir, labels_dir, output_images_dir, output_labels_dir] \<longrightarrow>
          ((\<exists>fs1'. move_matched_pairs fs1 images_dir labels_dir output_images_dir output_labels_dir
                     prefixes max_per_prefix = Inr fs1')
           \<longleftrightarrow> (\<exists>fs2'. move_matched_pairs fs2 images_dir labels_dir output_images_dir
                     output_labels_dir prefixes max_per_prefix = Inr fs2')))
     \<and> (\<forall>fs1' fs2'.
          distinct [images_dir, labels_dir, output_images_dir, output_labels_dir]
          \<and> move_matched_pairs fs1 images_dir labels_dir output_images_dir output_labels_dir
               prefixes max_per_prefix = Inr fs1'
          \<and> move_matched_pairs fs2 images_dir labels_dir output_images_dir output_labels_dir
               prefixes max_per_prefix = Inr fs2'
          \<longrightarrow> set (listdir fs1' images_dir) = set (listdir fs2' images_dir)
            \<and> set (listdir fs1' labels_dir) = set (listdir fs2' labels_dir)
            \<and> set (listdir fs1' output_images_dir)
                = set (listdir fs1 output_images_dir) \<union> fst ` set (concat (map selected1 prefixes))
            \<and> set (listdir fs2' output_images_dir)
                = set (listdir fs2 output_images_dir) \<union> fst ` set (concat (map selected1 prefixes))
            \<and> set (listdir fs1' output_labels_dir)
                = set (listdir fs1 output_labels_dir) \<union> snd ` set (concat (map selected1 prefixes))
            \<and> set (listdir fs2' output_labels_dir)
                = set (listdir fs2 output_labels_dir) \<union> snd ` set (concat (map selected1 prefixes)))"
proof -
  have sel: "selected1 p = selected2 p" for p
    unfolding selected1_def selected2_def
    by (rule matched_pairs_listing_eq [OF d1 d2 imgs labs])
  then have all: "concat (map selected2 prefixes) = concat (map selected1 prefixes)"
    by (simp cong: map_cong)
  let ?all = "concat (map selected1 prefixes)"
  have run1: "move_matched_pairs fs1 images_dir labels_dir output_images_dir output_labels_dir
                prefixes max_per_prefix
              = move_pairs fs1 images_dir labels_dir output_images_dir output_labels_dir ?all"
    by (simp add: move_matched_pairs_concat selected1_def)
  have "move_matched_pairs fs2 images_dir labels_dir output_images_dir output_labels_dir
                prefixes max_per_prefix
              = move_pairs fs2 images_dir labels_dir output_images_dir output_labels_dir
                  (concat (map selected2 prefixes))"
    by (simp add: move_matched_pairs_concat selected2_def)
  then have run2: "move_matched_pairs fs2 images_dir labels_dir output_images_dir output_labels_dir
                prefixes max_per_prefix
              = move_pairs fs2 images_dir labels_dir output_images_dir output_labels_dir ?all"
    by (simp only: all)
  have succ: "distinct [images_dir, labels_dir, output_images_dir, output_labels_dir] \<longrightarrow>
          ((\<exists>fs1'. move_matched_pairs fs1 images_dir labels_dir output_images_dir output_labels_dir
                     prefixes max_per_prefix = Inr fs1')
           \<longleftrightarrow> (\<exists>fs2'. move_matched_pairs fs2 images_dir labels_dir output_images_dir
                     output_labels_dir prefixes max_per_prefix = Inr fs2'))"
  proof
    assume dirs: "distinct [images_dir, labels_dir, output_images_dir, output_labels_dir]"
    then have d: "images_dir \<noteq> labels_dir" "images_dir \<noteq> output_images_dir"
      "images_dir \<noteq> output_labels_dir" "labels_dir \<noteq> output_images_dir"
      "labels_dir \<noteq> output_labels_dir" "output_images_dir \<noteq> output_labels_dir" by auto
    show "(\<exists>fs1'. move_matched_pairs fs1 images_dir labels_dir output_images_dir output_labels_dir
                     prefixes max_per_prefix = Inr fs1')
           \<longleftrightarrow> (\<exists>fs2'. move_matched_pairs fs2 images_dir labels_dir output_images_dir
                     output_labels_dir prefixes max_per_prefix = Inr fs2')"
      unfolding run1 run2
      using move_pairs_success_transfer [OF _ d imgs labs]
        move_pairs_success_transfer [OF _ d imgs [symmetric] labs [symmetric]]
      by blast
  qed
  have after: "\<forall>fs1' fs2'.
          distinct [images_dir, labels_dir, output_images_dir, output_labels_dir]
          \<and> move_matched_pairs fs1 images_dir labels_dir output_images_dir output_labels_dir
               prefixes max_per_prefix = Inr fs1'
          \<and> move_matched_pairs fs2 images_dir labels_dir output_images_dir output_labels_dir
               prefixes max_per_prefix = Inr fs2'
          \<longrightarrow> set (listdir fs1' images_dir) = set (listdir fs2' images_dir)
            \<and> set (listdir fs1' labels_dir) = set (listdir fs2' labels_dir)
            \<and> set (listdir fs1' output_images_dir)
                = set (listdir fs1 output_images_dir) \<union> fst ` set ?all
            \<and> set (listdir fs2' output_images_dir)
                = set (listdir fs2 output_images_dir) \<union> fst ` set ?all
            \<and> set (listdir fs1' output_labels_dir)
                = set (listdir fs1 output_labels_dir) \<union> snd ` set ?all
            \<and> set (listdir fs2' output_labels_dir)
                = set (listdir fs2 output_labels_dir) \<union> snd ` set ?all"
  proof (intro allI impI, elim conjE)
    fix fs1' fs2'
    assume dirs: "distinct [images_dir, labels_dir, output_images_dir, output_labels_dir]"
      and r1: "move_matched_pairs fs1 images_dir labels_dir output_images_dir output_labels_dir
               prefixes max_per_prefix = Inr fs1'"
      and r2: "move_matched_pairs fs2 images_dir labels_dir output_images_dir output_labels_dir
               prefixes max_per_prefix = Inr fs2'"
    from dirs have d: "images_dir \<noteq> labels_dir" "images_dir \<noteq> output_images_dir"
      "images_dir \<noteq> output_labels_dir" "labels_dir \<noteq> output_images_dir"
      "labels_dir \<noteq> output_labels_dir" "output_images_dir \<noteq> output_labels_dir" by auto
    note a1 = listdir_after_moves [OF r1 [unfolded run1] d]
    note a2 = listdir_after_moves [OF r2 [unfolded run2] d]
    have "set (listdir fs1' images_dir) = set (listdir fs2' images_dir)"
      by (simp only: a1(1) a2(1) imgs)
    moreover have "set (listdir fs1' labels_dir) = set (listdir fs2' labels_dir)"
      by (simp only: a1(2) a2(2) labs)
    ultimately show "set (listdir fs1' images_dir) = set (listdir fs2' images_dir)
            \<and> set (listdir fs1' labels_dir) = set (listdir fs2' labels_dir)
            \<and> set (listdir fs1' output_images_dir)
                = set (listdir fs1 output_images_dir) \<union> fst ` set ?all
            \<and> set (listdir fs2' output_images_dir)
                = set (listdir fs2 output_images_dir) \<union> fst ` set ?all
            \<and> set (listdir fs1' output_labels_dir)
                = set (listdir fs1 output_labels_dir) \<union> snd ` set ?all
            \<and> set (listdir fs2' output_labels_dir)
                = set (listdir fs2 output_labels_dir) \<union> snd ` set ?all"
      using a1(3,4) a2(3,4) by (intro conjI)
  qed
  from sel [of prefix] succ after show ?thesis by (intro conjI)
qed

theorem split_independent_of_listing_order_witness:
  "distinct (listdir example_split_fs ''imagesTr'')
   \<and> distinct (listdir example_split_fs_reordered ''imagesTr'')
   \<and> set (listdir example_split_fs ''imagesTr'') = set (listdir example_split_fs_reordered ''imagesTr'')
   \<and> set (listdir example_split_fs ''labelsTr'') = set (listdir example_split_fs_reordered ''labelsTr'')
   \<and> listdir example_split_fs ''imagesTr'' \<noteq> listdir example_split_fs_reordered ''imagesTr''
   \<and> matched_pairs (collect_image_files_by_prefix example_split_fs ''imagesTr'' [''ToothFairy3F''])
        (collect_label_set example_split_fs ''labelsTr'') 17 ''ToothFairy3F''
     = matched_pairs
        (collect_image_files_by_prefix example_split_fs_reordered ''imagesTr'' [''ToothFairy3F''])
        (collect_label_set example_split_fs_reordered ''labelsTr'') 17 ''ToothFairy3F''
   \<and> ((\<exists>fs1'. move_matched_pairs example_split_fs ''imagesTr'' ''labelsTr'' ''imagesVal''
                  ''labelsVal'' [''ToothFairy3F''] 17 = Inr fs1')
        \<longleftrightarrow> (\<exists>fs2'. move_matched_pairs example_split_fs_reordered ''imagesTr'' ''labelsTr''
                  ''imagesVal'' ''labelsVal'' [''ToothFairy3F''] 17 = Inr fs2'))"
proof -
  have h1: "distinct (listdir example_split_fs ''imagesTr'')" by code_simp
  have h2: "distinct (listdir example_split_fs_reordered ''imagesTr'')" by code_simp
  have h3: "set (listdir example_split_fs ''imagesTr'')
            = set (listdir example_split_fs_reordered ''imagesTr'')" by code_simp
  have h4: "set (listdir example_split_fs ''labelsTr'')
            = set (listdir example_split_fs_reordered ''labelsTr'')" by code_simp
  have ne: "listdir example_split_fs ''imagesTr'' \<noteq> listdir example_split_fs_reordered ''imagesTr''"
    by code_simp
  have dirs: "distinct [''imagesTr'', ''labelsTr'', ''imagesVal'', ''labelsVal'']" by simp
  note inst = split_independent_of_listing_order
    [OF h1 h2 h3 h4, of "[''ToothFairy3F'']" 17 "''ToothFairy3F''" "''imagesVal''" "''labelsVal''"]
  from inst have sel: "matched_pairs (collect_image_files_by_prefix example_split_fs ''imagesTr'' [''ToothFairy3F''])
        (collect_label_set example_split_fs ''labelsTr'') 17 ''ToothFairy3F''
     = matched_pairs
        (collect_image_files_by_prefix example_split_fs_reordered ''imagesTr'' [''ToothFairy3F''])
        (collect_label_set example_split_fs_reordered ''labelsTr'') 17 ''ToothFairy3F''"
    by (elim conjE)
  from inst dirs have succ: "(\<exists>fs1'. move_matched_pairs example_split_fs ''imagesTr'' ''labelsTr'' ''imagesVal''
                  ''labelsVal'' [''ToothFairy3F''] 17 = Inr fs1')
        \<longleftrightarrow> (\<exists>fs2'. move_matched_pairs example_split_fs_reordered ''imagesTr'' ''labelsTr''
                  ''imagesVal'' ''labelsVal'' [''ToothFairy3F''] 17 = Inr fs2')"
    by blast
  from h1 h2 h3 h4 ne sel succ show ?thesis by (intro conjI)
qed


section \<open>Properties of the pipeline\<close>

lemma map_of_filter_key:
  "P k \<Longrightarrow> map_of (filter (\<lambda>(k', v). P k') xs) k = map_of xs k"
  by (induction xs) auto

lemma read_file_other_entries:
  "\<not> nii_gz fname \<Longrightarrow> read_file fs d fname = map_of (other_entries fs d) fname"
  unfolding read_file_def other_entries_def
  by (simp add: map_of_filter_key [where P = "\<lambda>k. \<not> nii_gz k"])

lemma other_entries_remap_labels_in_nii:
  "remap_labels_in_nii on_disk fs ld fname od oname m = Inr fs' \<Longrightarrow> nii_gz oname \<Longrightarrow>
   other_entries fs' d = other_entries fs d"
  by (auto simp: remap_labels_in_nii_def other_entries_write_file
      split: option.splits content.splits sum.splits)

lemma other_entries_remap_files:
  "remap_files on_disk fs ld od m names = Inr fs' \<Longrightarrow> other_entries fs' d = other_entries fs d"
proof (induction names arbitrary: fs)
  case Nil
  then show ?case by simp
next
  case (Cons fname rest)
  show ?case
  proof (cases "nii_gz fname")
    case True
    with Cons.prems obtain fs1 where
      s1: "remap_labels_in_nii on_disk fs ld fname od fname m = Inr fs1"
      and s2: "remap_files on_disk fs1 ld od m rest = Inr fs'"
      by (auto split: sum.splits)
    from Cons.IH [OF s2] other_entries_remap_labels_in_nii [OF s1 True]
    show ?thesis by simp
  next
    case False
    with Cons show ?thesis by simp
  qed
qed

lemma other_entries_remap_all_labels:
  "remap_all_labels on_disk fs ld od m = Inr fs' \<Longrightarrow> other_entries fs' d = other_entries fs d"
  unfolding remap_all_labels_def by (rule other_entries_remap_files)

lemma other_entries_move_matched_pairs:
  assumes "move_matched_pairs fs I L OI OL prefixes cap = Inr fs'"
  shows "other_entries fs' d = other_entries fs d"
proof -
  let ?all = "concat (map (matched_pairs (collect_image_files_by_prefix fs I prefixes)
                                   (collect_label_set fs L) cap) prefixes)"
  from assms have mv: "move_pairs fs I L OI OL ?all = Inr fs'"
    by (simp add: move_matched_pairs_concat)
  have "\<forall>(i, l)\<in>set ?all. nii_gz i \<and> nii_gz l"
    using matched_pairs_nii_gz by fastforce
  from other_entries_move_pairs [OF mv this] show ?thesis .
qed

lemma fold_write_file_other_dir:
  "d \<noteq> dst \<Longrightarrow> fold (\<lambda>(fname, c) fs'. write_file fs' dst fname c) entries fs d = fs d"
  by (induction entries arbitrary: fs) (auto simp: write_file_def)

lemma copytree_other_dir:
  "copytree fs src dst = Inr fs' \<Longrightarrow> d \<noteq> dst \<Longrightarrow> fs' d = fs d"
  by (auto simp: copytree_def fold_write_file_other_dir split: if_splits)

lemma path_join_neq_self: "b \<noteq> [] \<Longrightarrow> path_join a b \<noteq> a"
  by (simp add: path_join_def)

lemma not_nii_gz_dataset_json: "\<not> nii_gz ''dataset.json''"
  by (simp add: nii_gz_def endswith_def)

lemma finalize_Inr:
  assumes "finalize fs output_root n = Inr fs'"
  shows "\<exists>dataset. read_file fs output_root ''dataset.json'' = Some (Json (JObj dataset))
     \<and> fs' = write_file fs output_root ''dataset.json''
               (Json (JObj (AList.update ''numTraining'' (JInt n) dataset)))"
  using assms
  by (auto simp: finalize_def split: option.splits content.splits json.splits)

lemma main_Inr:
  assumes "main on_disk fs input_root output_root original_labels = Inr fs'"
  shows "\<exists>fs2 fs3 fs4.
      remap_all_labels on_disk (fst (main_remap fs output_root original_labels))
        (path_join input_root ''labelsTr'') (path_join output_root ''labelsTr'')
        (snd (main_remap fs output_root original_labels)) = Inr fs2
    \<and> copytree fs2 (path_join input_root ''imagesTr'') (path_join output_root ''imagesTr'') = Inr fs3
    \<and> move_matched_pairs fs3 (path_join output_root ''imagesTr'') (path_join output_root ''labelsTr'')
        (path_join output_root ''imagesVal'') (path_join output_root ''labelsVal'')
        prefixes_main 17 = Inr fs4
    \<and> finalize fs4 output_root
        (num_train_of fs4 (path_join output_root ''labelsTr'') (path_join output_root ''labelsVal''))
        = Inr fs'"
  using assms
  by (auto simp: main_def Let_def split: prod.splits sum.splits if_splits)

lemma main_descriptor_survives:
  assumes "main on_disk fs input_root output_root original_labels = Inr fs'"
  shows "\<exists>fs4.
      read_file fs4 output_root ''dataset.json'' = Some (Json (JObj (output_dict original_labels 0)))
    \<and> fs' = write_file fs4 output_root ''dataset.json''
        (Json (JObj (AList.update ''numTraining''
           (JInt (num_train_of fs4 (path_join output_root ''labelsTr'')
                    (path_join output_root ''labelsVal'')))
           (output_dict original_labels 0))))
    \<and> (\<forall>d fname. \<not> nii_gz fname \<and> d \<noteq> path_join output_root ''imagesTr''
           \<and> (d, fname) \<noteq> (output_root, ''dataset.json'')
         \<longrightarrow> read_file fs4 d fname = read_file fs d fname)"
proof -
  let ?fs1 = "fst (main_remap fs output_root original_labels)"
  from main_Inr [OF assms] obtain fs2 fs3 fs4 where
    s2: "remap_all_labels on_disk ?fs1
        (path_join input_root ''labelsTr'') (path_join output_root ''labelsTr'')
        (snd (main_remap fs output_root original_labels)) = Inr fs2"
    and s3: "copytree fs2 (path_join input_root ''imagesTr'') (path_join output_root ''imagesTr'') = Inr fs3"
    and s4: "move_matched_pairs fs3 (path_join output_root ''imagesTr'') (path_join output_root ''labelsTr'')
        (path_join output_root ''imagesVal'') (path_join output_root ''labelsVal'')
        prefixes_main 17 = Inr fs4"
    and s5: "finalize fs4 output_root
        (num_train_of fs4 (path_join output_root ''labelsTr'') (path_join output_root ''labelsVal''))
        = Inr fs'"
    by blast
  have fs1: "?fs1 = write_file fs output_root ''dataset.json''
               (Json (JObj (output_dict original_labels 0)))"
    by (simp add: main_remap_def remap_label_ids_from_json_def)
  have step: "read_file fs4 d fname = read_file ?fs1 d fname"
    if "\<not> nii_gz fname" "d \<noteq> path_join output_root ''imagesTr''" for d fname
  proof -
    have "read_file fs4 d fname = map_of (other_entries fs3 d) fname"
      using that(1) by (simp add: read_file_other_entries other_entries_move_matched_pairs [OF s4])
    also have "\<dots> = read_file fs3 d fname"
      using that(1) by (simp add: read_file_other_entries)
    also have "\<dots> = read_file fs2 d fname"
      using copytree_other_dir [OF s3 that(2)] by (simp add: read_file_def)
    also have "\<dots> = read_file ?fs1 d fname"
      using that(1) by (simp add: read_file_other_entries other_entries_remap_all_labels [OF s2])
    finally show ?thesis .
  qed
  have "read_file fs4 output_root ''dataset.json'' = read_file ?fs1 output_root ''dataset.json''"
    using step [OF not_nii_gz_dataset_json, of output_root] path_join_neq_self [of "''imagesTr''" output_root]
    by fastforce
  then have r4: "read_file fs4 output_root ''dataset.json''
      = Some (Json (JObj (output_dict original_labels 0)))"
    by (simp add: fs1 read_file_write_file)
  from finalize_Inr [OF s5] r4 have fs': "fs' = write_file fs4 output_root ''dataset.json''
        (Json (JObj (AList.update ''numTraining''
           (JInt (num_train_of fs4 (path_join output_root ''labelsTr'')
                    (path_join output_root ''labelsVal'')))
           (output_dict original_labels 0))))"
    by auto
  have frame: "\<forall>d fname. \<not> nii_gz fname \<and> d \<noteq> path_join output_root ''imagesTr''
           \<and> (d, fname) \<noteq> (output_root, ''dataset.json'')
         \<longrightarrow> read_file fs4 d fname = read_file fs d fname"
  proof (intro allI impI, elim conjE)
    fix d fname
    assume a: "\<not> nii_gz fname" "d \<noteq> path_join output_root ''imagesTr''"
      "(d, fname) \<noteq> (output_root, ''dataset.json'')"
    from step [OF a(1,2)] a(3) show "read_file fs4 d fname = read_file fs d fname"
      by (auto simp add: fs1 read_file_write_file)
  qed
  from r4 fs' frame show ?thesis by blast
qed





lemma listdir_write_file_other_dir:
  "d \<noteq> d' \<Longrightarrow> listdir (write_file fs d' fname c) d = listdir fs d"
  by (simp add: listdir_def write_file_def)

text \<open>
  C8. When the pipeline completes, the final descriptor is the descriptor the remapper wrote
  with the value of \<open>numTraining\<close> replaced: the same keys in the same order, every field
  other than \<open>numTraining\<close> with the value the remapper wrote (\<open>labels\<close>, \<open>file_ending\<close>,
  \<open>channel_names\<close>, and \<open>numTest\<close>, which is 51). No stage in between touches the file.
\<close>

theorem finalizer_patches_only_numTraining:
  assumes "main on_disk fs input_root output_root original_labels = Inr fs'"
  shows "\<exists>final.
      read_file fs' output_root ''dataset.json'' = Some (Json (JObj final))
    \<and> read_file (fst (main_remap fs output_root original_labels)) output_root ''dataset.json''
        = Some (Json (JObj (output_dict original_labels 0)))
    \<and> final = AList.update ''numTraining''
        (JInt (num_train_of fs' (path_join output_root ''labelsTr'')
                 (path_join output_root ''labelsVal'')))
        (output_dict original_labels 0)
    \<and> map fst final = map fst (output_dict original_labels 0)
    \<and> (\<forall>key. key \<noteq> ''numTraining'' \<longrightarrow> map_of final key = map_of (output_dict original_labels 0) key)
    \<and> map_of final ''labels''
        = Some (JObj (map (\<lambda>(name, new_id). (name, JInt new_id)) (remapped_labels original_labels)))
    \<and> map_of final ''numTest'' = Some (JInt 51)
    \<and> map_of final ''file_ending'' = Some (JStr ''.nii.gz'')
    \<and> map_of final ''channel_names'' = Some (JObj [(''0'', JStr ''CBCT'')])"
proof -
  from main_descriptor_survives [OF assms] obtain fs4 where
    r4: "read_file fs4 output_root ''dataset.json'' = Some (Json (JObj (output_dict original_labels 0)))"
    and fs': "fs' = write_file fs4 output_root ''dataset.json''
        (Json (JObj (AList.update ''numTraining''
           (JInt (num_train_of fs4 (path_join output_root ''labelsTr'')
                    (path_join output_root ''labelsVal'')))
           (output_dict original_labels 0))))"
    by blast
  have n: "num_train_of fs' (path_join output_root ''labelsTr'') (path_join output_root ''labelsVal'')
         = num_train_of fs4 (path_join output_root ''labelsTr'') (path_join output_root ''labelsVal'')"
    unfolding num_train_of_def fs'
    by (simp add: listdir_write_file_other_dir path_join_neq_self)
  let ?final = "AList.update ''numTraining''
        (JInt (num_train_of fs' (path_join output_root ''labelsTr'')
                 (path_join output_root ''labelsVal'')))
        (output_dict original_labels 0)"
  have a: "read_file fs' output_root ''dataset.json'' = Some (Json (JObj ?final))"
    by (simp add: n) (simp add: fs' read_file_write_file)
  have b: "read_file (fst (main_remap fs output_root original_labels)) output_root ''dataset.json''
        = Some (Json (JObj (output_dict original_labels 0)))"
    by (simp add: main_remap_def remap_label_ids_from_json_def read_file_write_file)
  have c: "map fst ?final = map fst (output_dict original_labels 0)"
    by (simp add: update_keys) (simp add: output_dict_def)
  have d: "\<forall>key. key \<noteq> ''numTraining'' \<longrightarrow> map_of ?final key = map_of (output_dict original_labels 0) key"
    by (simp add: update_conv')
  have e: "map_of ?final ''labels''
        = Some (JObj (map (\<lambda>(name, new_id). (name, JInt new_id)) (remapped_labels original_labels)))"
    "map_of ?final ''numTest'' = Some (JInt 51)"
    "map_of ?final ''file_ending'' = Some (JStr ''.nii.gz'')"
    "map_of ?final ''channel_names'' = Some (JObj [(''0'', JStr ''CBCT'')])"
    by (simp_all add: update_conv') (simp_all add: output_dict_def)
  from a b c d e show ?thesis by (intro exI [of _ ?final] conjI) simp_all
qed

theorem finalizer_patches_only_numTraining_witness:
  "\<not> isl (main stored_as_is example_main_fs ''in'' ''out'' example_labels)
   \<and> (\<exists>final.
        read_file (projr (main stored_as_is example_main_fs ''in'' ''out'' example_labels)) ''out'' ''dataset.json''
          = Some (Json (JObj final))
      \<and> map_of final ''labels'' = Some (JObj [(''background'', JInt 0), (''tooth'', JInt 1)])
      \<and> map_of final ''numTest'' = Some (JInt 51)
      \<and> map_of final ''file_ending'' = Some (JStr ''.nii.gz'')
      \<and> map_of final ''channel_names'' = Some (JObj [(''0'', JStr ''CBCT'')]))"
proof -
  let ?run = "main stored_as_is example_main_fs ''in'' ''out'' example_labels"
  have ok: "\<not> isl ?run" by code_simp
  then have run: "?run = Inr (projr ?run)" by simp
  have labels: "map (\<lambda>(name, new_id). (name, JInt new_id)) (remapped_labels example_labels)
      = [(''background'', JInt 0), (''tooth'', JInt 1)]"
    by code_simp
  from finalizer_patches_only_numTraining [OF run] obtain final where
    "read_file (projr ?run) ''out'' ''dataset.json'' = Some (Json (JObj final))"
    "map_of final ''labels''
        = Some (JObj (map (\<lambda>(name, new_id). (name, JInt new_id)) (remapped_labels example_labels)))"
    "map_of final ''numTest'' = Some (JInt 51)"
    "map_of final ''file_ending'' = Some (JStr ''.nii.gz'')"
    "map_of final ''channel_names'' = Some (JObj [(''0'', JStr ''CBCT'')])"
    by blast
  with ok labels show ?thesis by (intro conjI exI [of _ final]) simp_all
qed

text \<open>
  C1. The spec states that the final \<open>numTraining\<close> is the number of label files in the
  training-label directory after the split. The code lists that directory after the move
  and then subtracts the number of validation labels once more. With one image and its
  label, the pair is moved to validation: no label file is left in the training directory
  and the descriptor says \<open>numTraining = -1\<close>.
\<close>

theorem numTraining_subtracts_validation_count_after_the_move:
  "\<not> isl (main stored_as_is example_main_fs ''in'' ''out'' example_labels)
   \<and> filter nii_gz (listdir (projr (main stored_as_is example_main_fs ''in'' ''out'' example_labels))
        ''out/labelsTr'') = []
   \<and> filter nii_gz (listdir (projr (main stored_as_is example_main_fs ''in'' ''out'' example_labels))
        ''out/labelsVal'') = [''ToothFairy3F_001.nii.gz'']
   \<and> read_file (projr (main stored_as_is example_main_fs ''in'' ''out'' example_labels)) ''out'' ''dataset.json''
       = Some (Json (JObj
           [(''labels'', JObj [(''background'', JInt 0), (''tooth'', JInt 1)]),
            (''numTraining'', JInt (- 1)),
            (''numTest'', JInt 51),
            (''file_ending'', JStr ''.nii.gz''),
            (''channel_names'', JObj [(''0'', JStr ''CBCT'')])]))"
  by code_simp




end
